theory Spec2Isabelle
  imports Complex_Main "HOL-Library.Char_ord" "HOL-Library.List_Lexorder"
    "HOL-Library.Product_Lexorder"
begin

section \<open>Data model of \<open>etl_run.py\<close>\<close>

text \<open>
  The extractor reads both CSV files with \<open>dtype=str\<close>: every cell is a text, or NaN where
  the field is empty. A cell is therefore a \<open>string option\<close> (\<open>None\<close> is NaN). A DataFrame
  is its list of column labels and its rows, each row a list of cells in column order; a
  row shorter than the header reads as NaN in the missing positions, as \<open>read_csv\<close> pads it.

  Characters are 8-bit code points. The float64 values pandas computes (amounts, sums,
  ratios) are idealised as exact rationals; a float that is NaN or infinite is \<open>None\<close>.
  An instant is the number of nanoseconds since the epoch in UTC, a calendar date the
  number of days since the epoch.
\<close>

type_synonym cell = "string option"

record table =
  columns :: "string list"
  rows :: "cell list list"

text \<open>
  The local \<open>txns\<close> frame after lines 94-95: the text cells and the two typed columns
  \<open>amount_num\<close> (float, NaN is \<open>None\<close>) and \<open>txn_ts\<close> (UTC instant, NaT is \<open>None\<close>).
  \<open>tcolumns\<close> labels the text cells. A text column of the file that is itself labelled
  \<open>amount_num\<close> or \<open>txn_ts\<close> is overwritten by the assignment in pandas and is never read
  afterwards; here it stays among the text cells, unread.
\<close>

record txn_row =
  cells :: "cell list"
  amount_num :: "rat option"
  txn_ts :: "int option"

record txn_table =
  tcolumns :: "string list"
  trows :: "txn_row list"

record RunStats =
  txns_total :: int
  txns_after_dedupe :: int
  txns_valid :: int
  txns_rejected :: int
  merchants_loaded :: int
  daily_rows :: int
  fact_rows_upserted :: int

definition RunStats0 :: RunStats where
  "RunStats0 = \<lparr>txns_total = 0, txns_after_dedupe = 0, txns_valid = 0, txns_rejected = 0,
     merchants_loaded = 0, daily_rows = 0, fact_rows_upserted = 0\<rparr>"

text \<open>
  Errors. \<open>ValueError f missing\<close> is the \<open>ValueError\<close> of lines 76 and 80 with the message
  "\<open>f\<close> missing columns: \<open>missing\<close>". \<open>AttributeError\<close> is what pandas raises at lines 84
  and 87 when a column label occurs twice: \<open>df[c]\<close> is then a DataFrame, which has no
  \<open>.str\<close> accessor. \<open>KeyError c\<close> is a read of a column that the frame does not have.
  \<open>DBError\<close> is a statement that the database rejects.
\<close>

datatype db_error = NotNullViolation | DuplicateKey | ForeignKeyViolation

datatype error =
    ValueError string "string set"
  | AttributeError
  | KeyError string
  | DBError db_error

section \<open>Strings and columns\<close>

text \<open>\<open>str.isspace\<close> on the code points below 256.\<close>

definition is_space :: "char \<Rightarrow> bool" where
  "is_space c = ((of_char c :: nat) \<in> {9, 10, 11, 12, 13, 28, 29, 30, 31, 32, 133, 160})"

text \<open>\<open>str.strip()\<close>: drop leading and trailing whitespace.\<close>

definition str_strip :: "string \<Rightarrow> string" where
  "str_strip s = rev (dropWhile is_space (rev (dropWhile is_space s)))"

text \<open>\<open>astype(str)\<close> on one cell: NaN becomes the text \<open>nan\<close>.\<close>

definition astype_str :: "cell \<Rightarrow> string" where
  "astype_str c = (case c of None \<Rightarrow> ''nan'' | Some s \<Rightarrow> s)"

text \<open>The cell of row \<open>r\<close> under the label \<open>c\<close> (the first column of that label).\<close>

definition cell_at :: "string list \<Rightarrow> cell list \<Rightarrow> string \<Rightarrow> cell" where
  "cell_at cols r c = (case map_of (zip cols r) c of Some v \<Rightarrow> v | None \<Rightarrow> None)"

text \<open>\<open>df[c]\<close> for a label that occurs once.\<close>

definition column :: "table \<Rightarrow> string \<Rightarrow> cell list" where
  "column t c = map (\<lambda>r. cell_at (columns t) r c) (rows t)"

text \<open>Lines 68-69: \<open>df.columns = [c.strip() for c in df.columns]\<close>.\<close>

definition strip_columns :: "table \<Rightarrow> table" where
  "strip_columns t = t\<lparr>columns := map str_strip (columns t)\<rparr>"

text \<open>
  Lines 83-87: \<open>for c in df.columns: df[c] = df[c].astype(str).str.strip()\<close>, in place.
\<close>

definition strip_row :: "string list \<Rightarrow> cell list \<Rightarrow> cell list" where
  "strip_row cols r = map (\<lambda>c. Some (str_strip (astype_str (cell_at cols r c)))) cols"

definition strip_cells :: "table \<Rightarrow> error + table" where
  "strip_cells t =
     (if distinct (columns t)
      then Inr (t\<lparr>rows := map (strip_row (columns t)) (rows t)\<rparr>)
      else Inl AttributeError)"

text \<open>Boolean indexing \<open>df.loc[mask]\<close>: the rows whose mask entry is true.\<close>

definition select_mask :: "'a list \<Rightarrow> bool list \<Rightarrow> 'a list" where
  "select_mask xs keep = map fst (filter snd (zip xs keep))"

text \<open>
  \<open>Series.duplicated(keep="first")\<close>: an entry is a duplicate when its value was seen at
  an earlier position.
\<close>

fun duplicated :: "'k list \<Rightarrow> 'k list \<Rightarrow> bool list" where
  "duplicated seen [] = []"
| "duplicated seen (k # ks) = (k \<in> set seen) # duplicated (k # seen) ks"

text \<open>Line 90: \<open>df.drop_duplicates(subset=[c], keep="first")\<close>, a new frame.\<close>

definition drop_duplicates :: "table \<Rightarrow> string \<Rightarrow> table" where
  "drop_duplicates t c =
     t\<lparr>rows := select_mask (rows t) (map Not (duplicated [] (column t c)))\<rparr>"

section \<open>Validate / Clean\<close>

definition required_merch_cols :: "string set" where
  "required_merch_cols = {''merchant_id'', ''merchant_name''}"

definition required_txn_cols :: "string set" where
  "required_txn_cols = {''transaction_id'', ''merchant_id'', ''txn_ts_utc'', ''amount'', ''status''}"

text \<open>
  Lines 94-95 attach the parsed columns to the rows by position. \<open>pd.to_numeric\<close> and
  \<open>pd.to_datetime\<close> belong to pandas, not to this repository: they are parameters, taking
  a whole column and returning the parsed column (\<open>errors="coerce"\<close>: NaN or NaT where
  the text does not parse).
\<close>

fun attach :: "cell list list \<Rightarrow> rat option list \<Rightarrow> int option list \<Rightarrow> txn_row list" where
  "attach [] ns ts = []"
| "attach (r # rs) ns ts =
     \<lparr>cells = r,
      amount_num = (case ns of [] \<Rightarrow> None | n # _ \<Rightarrow> n),
      txn_ts = (case ts of [] \<Rightarrow> None | t # _ \<Rightarrow> t)\<rparr> # attach rs (tl ns) (tl ts)"

text \<open>Line 98: \<open>txns["status"].isin(["APPROVED", "DECLINED"])\<close>, for one row.\<close>

definition valid_status :: "string list \<Rightarrow> txn_row \<Rightarrow> bool" where
  "valid_status cols r = (cell_at cols (cells r) ''status'' \<in> {Some ''APPROVED'', Some ''DECLINED''})"

text \<open>Line 99: \<open>notna() & (amount_num > 0)\<close>.\<close>

definition valid_amount :: "txn_row \<Rightarrow> bool" where
  "valid_amount r = (amount_num r \<noteq> None \<and> (case amount_num r of None \<Rightarrow> False | Some a \<Rightarrow> a > 0))"

text \<open>Line 100.\<close>

definition valid_ts :: "txn_row \<Rightarrow> bool" where
  "valid_ts r = (txn_ts r \<noteq> None)"

text \<open>Line 102: \<open>set(merchants["merchant_id"].dropna().astype(str))\<close>.\<close>

definition merchant_ids :: "table \<Rightarrow> string set" where
  "merchant_ids m = set (map astype_str (filter (\<lambda>c. c \<noteq> None) (column m ''merchant_id'')))"

text \<open>Line 103: \<open>txns["merchant_id"].isin(merchant_ids)\<close>.\<close>

definition valid_merchant :: "string set \<Rightarrow> string list \<Rightarrow> txn_row \<Rightarrow> bool" where
  "valid_merchant ids cols r =
     (case cell_at cols (cells r) ''merchant_id'' of None \<Rightarrow> False | Some m \<Rightarrow> m \<in> ids)"

text \<open>The elementwise \<open>&\<close> of two boolean columns.\<close>

definition mask_and :: "bool list \<Rightarrow> bool list \<Rightarrow> bool list" where
  "mask_and a b = map (\<lambda>(x, y). x \<and> y) (zip a b)"

text \<open>
  What \<open>validate_and_clean\<close> leaves behind when it returns: the caller's two frames, which
  it updated in place (lines 68-69 and 83-87), and the two values it returns. When it
  raises, \<open>main\<close> ends and no frame is looked at again.
\<close>

record vc_out =
  merchants_after :: table
  txns_after :: table
  clean_txns :: txn_table
  stats :: RunStats

definition validate_and_clean ::
  "(cell list \<Rightarrow> rat option list) \<Rightarrow> (cell list \<Rightarrow> int option list) \<Rightarrow>
   table \<Rightarrow> table \<Rightarrow> error + vc_out" where
  "validate_and_clean to_numeric to_datetime merchants0 txns0 =
     (let stats0 = RunStats0\<lparr>txns_total := int (length (rows txns0))\<rparr>;
          merchants1 = strip_columns merchants0;
          txns1 = strip_columns txns0
      in if \<not> required_merch_cols \<subseteq> set (columns merchants1)
         then Inl (ValueError ''merchants.csv'' (required_merch_cols - set (columns merchants1)))
         else if \<not> required_txn_cols \<subseteq> set (columns txns1)
         then Inl (ValueError ''transactions.csv'' (required_txn_cols - set (columns txns1)))
         else
           (case strip_cells merchants1 of
              Inl e \<Rightarrow> Inl e
            | Inr merchants2 \<Rightarrow>
                (case strip_cells txns1 of
                   Inl e \<Rightarrow> Inl e
                 | Inr txns2 \<Rightarrow>
                     (let txns3 = drop_duplicates txns2 ''transaction_id'';
                          stats1 = stats0\<lparr>txns_after_dedupe := int (length (rows txns3))\<rparr>;
                          cols = columns txns3;
                          parsed = attach (rows txns3) (to_numeric (column txns3 ''amount''))
                                     (to_datetime (column txns3 ''txn_ts_utc''));
                          ids = merchant_ids merchants2;
                          is_valid = mask_and (mask_and (mask_and (map (valid_status cols) parsed)
                                       (map valid_amount parsed)) (map valid_ts parsed))
                                       (map (valid_merchant ids cols) parsed);
                          clean = select_mask parsed is_valid;
                          stats2 = stats1\<lparr>txns_valid := int (length clean),
                                     txns_rejected := int (length parsed) - int (length clean)\<rparr>
                      in Inr \<lparr>merchants_after = merchants2, txns_after = txns2,
                              clean_txns = \<lparr>tcolumns = cols, trows = clean\<rparr>,
                              stats = stats2\<rparr>))))"

section \<open>Transform (daily merchant metrics)\<close>

definition day_ns :: int where
  "day_ns = 86400 * 1000000000"

text \<open>The calendar date of a UTC instant, in days since the epoch (\<open>Timestamp.date()\<close>).\<close>

definition date_of :: "int \<Rightarrow> int" where
  "date_of t = t div day_ns"

text \<open>Line 120: \<open>clean_txns["txn_ts"].dt.date\<close>; NaT stays NaT.\<close>

definition metric_date_of :: "txn_row \<Rightarrow> int option" where
  "metric_date_of r = map_option date_of (txn_ts r)"

text \<open>Lines 122-123: \<open>(status == "APPROVED").astype(int)\<close> and the same for DECLINED.\<close>

definition is_approved :: "string list \<Rightarrow> txn_row \<Rightarrow> int" where
  "is_approved cols r = (if cell_at cols (cells r) ''status'' = Some ''APPROVED'' then 1 else 0)"

definition is_declined :: "string list \<Rightarrow> txn_row \<Rightarrow> int" where
  "is_declined cols r = (if cell_at cols (cells r) ''status'' = Some ''DECLINED'' then 1 else 0)"

text \<open>Line 125: \<open>amount_num.where(status == "APPROVED", 0.0)\<close>.\<close>

definition approved_amount_of :: "string list \<Rightarrow> txn_row \<Rightarrow> rat option" where
  "approved_amount_of cols r =
     (if cell_at cols (cells r) ''status'' = Some ''APPROVED'' then amount_num r else Some 0)"

text \<open>
  The group key of a row. \<open>groupby\<close> has \<open>dropna=True\<close>: a row with NaT or NaN in a key
  column belongs to no group.
\<close>

definition group_key :: "string list \<Rightarrow> txn_row \<Rightarrow> (int \<times> string) option" where
  "group_key cols r =
     (case metric_date_of r of
        None \<Rightarrow> None
      | Some d \<Rightarrow> (case cell_at cols (cells r) ''merchant_id'' of
                    None \<Rightarrow> None
                  | Some m \<Rightarrow> Some (d, m)))"

text \<open>\<open>groupby\<close> has \<open>sort=True\<close>: one group per distinct key, in ascending key order.\<close>

definition group_keys :: "string list \<Rightarrow> txn_row list \<Rightarrow> (int \<times> string) list" where
  "group_keys cols rs = sort (remdups (List.map_filter (group_key cols) rs))"

definition group_rows :: "string list \<Rightarrow> txn_row list \<Rightarrow> int \<times> string \<Rightarrow> txn_row list" where
  "group_rows cols rs k = filter (\<lambda>r. group_key cols r = Some k) rs"

text \<open>The \<open>sum\<close> aggregation skips NaN.\<close>

definition nansum :: "rat option list \<Rightarrow> rat" where
  "nansum xs = sum_list (map (\<lambda>x. case x of None \<Rightarrow> 0 | Some a \<Rightarrow> a) xs)"

text \<open>
  Lines 139-140: float division of two columns. Dividing by zero gives NaN or an
  infinity in pandas, never an exception; both are \<open>None\<close> here.
\<close>

definition true_div :: "rat \<Rightarrow> rat \<Rightarrow> rat option" where
  "true_div a b = (if b = 0 then None else Some (a / b))"

text \<open>
  \<open>Series.round(d)\<close> is numpy's: scale by \<open>10 ^ d\<close>, round to the nearest integer with
  ties to the even one, scale back.
\<close>

definition rint :: "rat \<Rightarrow> int" where
  "rint x =
     (let f = \<lfloor>x\<rfloor>; d = x - of_int f
      in if d < 1 / 2 then f else if 1 / 2 < d then f + 1 else if even f then f else f + 1)"

definition np_round :: "nat \<Rightarrow> rat \<Rightarrow> rat" where
  "np_round d x = of_int (rint (x * 10 ^ d)) / 10 ^ d"

record daily_row =
  metric_date :: int
  merchant_id :: string
  txn_count :: int
  approved_txn_count :: int
  declined_txn_count :: int
  gross_amount :: rat
  approved_amount :: rat
  approval_rate :: "rat option"
  avg_ticket :: "rat option"

record daily_frame =
  dcolumns :: "string list"
  drows :: "daily_row list"

text \<open>
  Lines 127-140 for the group of key \<open>k\<close>: the five named aggregations, then the two
  derived columns. \<open>count\<close> counts the cells that are not NaN.
\<close>

definition agg_group :: "string list \<Rightarrow> txn_row list \<Rightarrow> int \<times> string \<Rightarrow> daily_row" where
  "agg_group cols rs k =
     (let g = group_rows cols rs k;
          cnt = int (length (filter (\<lambda>r. cell_at cols (cells r) ''transaction_id'' \<noteq> None) g));
          appr = sum_list (map (is_approved cols) g);
          decl = sum_list (map (is_declined cols) g);
          gross = nansum (map amount_num g);
          appr_amt = nansum (map (approved_amount_of cols) g)
      in \<lparr>metric_date = fst k, merchant_id = snd k, txn_count = cnt,
          approved_txn_count = appr, declined_txn_count = decl,
          gross_amount = gross, approved_amount = appr_amt,
          approval_rate = map_option (np_round 4) (true_div (of_int appr) (of_int cnt)),
          avg_ticket = map_option (np_round 2) (true_div gross (of_int cnt))\<rparr>)"

text \<open>Lines 146-158: the column selection that fixes the order.\<close>

definition daily_columns :: "string list" where
  "daily_columns = [''metric_date'', ''merchant_id'', ''txn_count'', ''approved_txn_count'',
     ''declined_txn_count'', ''gross_amount'', ''approved_amount'', ''approval_rate'',
     ''avg_ticket'']"

text \<open>
  \<open>transform_daily_metrics\<close>. The columns it reads by label raise \<open>KeyError\<close> when absent
  (lines 122, 128 and 130). Line 143 converts the dates to timestamps and back, which
  changes nothing.
\<close>

definition transform_daily_metrics :: "txn_table \<Rightarrow> error + daily_frame" where
  "transform_daily_metrics clean =
     (let cols = tcolumns clean; rs = trows clean
      in if ''status'' \<notin> set cols then Inl (KeyError ''status'')
         else if ''merchant_id'' \<notin> set cols then Inl (KeyError ''merchant_id'')
         else if ''transaction_id'' \<notin> set cols then Inl (KeyError ''transaction_id'')
         else Inr \<lparr>dcolumns = daily_columns,
                   drows = map (agg_group cols rs) (group_keys cols rs)\<rparr>)"

section \<open>Load: upsert merchants and facts\<close>

text \<open>
  The sink holds the two target tables of \<open>create_tables.py\<close>, each a map from its primary
  key to the other columns and the timestamp column that defaults to the clock at
  insertion, and the two staging tables, absent (\<open>None\<close>) or holding rows. Text
  comparison is exact; the widths and precisions of the column types are not modelled.
\<close>

record merchant_attrs =
  merchant_name :: string
  category :: cell
  city :: cell
  state :: cell

record measures =
  m_txn_count :: int
  m_approved_txn_count :: int
  m_declined_txn_count :: int
  m_gross_amount :: rat
  m_approved_amount :: rat
  m_approval_rate :: rat
  m_avg_ticket :: rat

record sink =
  dim_merchants :: "string \<rightharpoonup> merchant_attrs \<times> nat"
  fact_daily_merchant_metrics :: "int \<times> string \<rightharpoonup> measures \<times> nat"
  stg_merchants :: "(string \<times> merchant_attrs) list option"
  stg_daily_metrics :: "((int \<times> string) \<times> measures) list option"

text \<open>Lines 185-190: the frame handed to \<open>to_sql\<close>; a column the file lacks is all NULL.\<close>

definition merchant_load_columns :: "string list" where
  "merchant_load_columns = [''merchant_id'', ''merchant_name'', ''category'', ''city'', ''state'']"

definition merchants_to_load :: "table \<Rightarrow> table" where
  "merchants_to_load m =
     \<lparr>columns = merchant_load_columns,
      rows = map (\<lambda>r. map (cell_at (columns m) r) merchant_load_columns) (rows m)\<rparr>"

text \<open>
  Inserting one row into \<open>stg_merchants\<close>: \<open>merchant_id\<close> and \<open>merchant_name\<close> are
  \<open>NOT NULL\<close>.
\<close>

fun stage_merchant :: "cell list \<Rightarrow> (string \<times> merchant_attrs) option" where
  "stage_merchant [Some i, Some n, c, ci, s] =
     Some (i, \<lparr>merchant_name = n, category = c, city = ci, state = s\<rparr>)"
| "stage_merchant r = None"

text \<open>Inserting one row into \<open>stg_daily_metrics\<close>: every column is \<open>NOT NULL\<close>.\<close>

definition stage_daily :: "daily_row \<Rightarrow> ((int \<times> string) \<times> measures) option" where
  "stage_daily r =
     (case approval_rate r of
        None \<Rightarrow> None
      | Some ar \<Rightarrow> (case avg_ticket r of
                     None \<Rightarrow> None
                   | Some tk \<Rightarrow>
                       Some ((metric_date r, merchant_id r),
                             \<lparr>m_txn_count = txn_count r,
                              m_approved_txn_count = approved_txn_count r,
                              m_declined_txn_count = declined_txn_count r,
                              m_gross_amount = gross_amount r,
                              m_approved_amount = approved_amount r,
                              m_approval_rate = ar, m_avg_ticket = tk\<rparr>)))"

text \<open>
  Both \<open>MERGE\<close> statements have one shape: a target row whose key matches a staged row
  gets every non-key column of the staged row and keeps its timestamp; a staged row
  with no match is inserted, its timestamp the clock \<open>now\<close>. The statement fails when two
  staged rows have one key (a second update of one row, or a second insert of one
  primary key).
\<close>

definition merge_rows :: "nat \<Rightarrow> ('k \<times> 'v) list \<Rightarrow> ('k \<rightharpoonup> 'v \<times> nat) \<Rightarrow> ('k \<rightharpoonup> 'v \<times> nat)" where
  "merge_rows now src tgt =
     (\<lambda>k. case map_of src k of
             None \<Rightarrow> tgt k
           | Some v \<Rightarrow> Some (v, case tgt k of None \<Rightarrow> now | Some (old, created) \<Rightarrow> created))"

text \<open>
  \<open>load_merchants\<close>: the first transaction recreates the staging table; \<open>to_sql\<close> fills it
  in a transaction of its own; the last transaction merges and drops the staging table,
  and is rolled back when the merge fails.
\<close>

definition load_merchants :: "nat \<Rightarrow> sink \<Rightarrow> table \<Rightarrow> (error + int) \<times> sink" where
  "load_merchants now engine merchants =
     (let s1 = engine\<lparr>stg_merchants := Some []\<rparr>;
          to_load = merchants_to_load merchants
      in case those (map stage_merchant (rows to_load)) of
           None \<Rightarrow> (Inl (DBError NotNullViolation), s1)
         | Some staged \<Rightarrow>
             (let s2 = s1\<lparr>stg_merchants := Some staged\<rparr>
              in if \<not> distinct (map fst staged) then (Inl (DBError DuplicateKey), s2)
                 else (Inr (int (length (rows to_load))),
                       s2\<lparr>dim_merchants := merge_rows now staged (dim_merchants s2),
                          stg_merchants := None\<rparr>)))"

text \<open>
  \<open>upsert_facts\<close>, the same three steps. An inserted fact row must reference a merchant
  of \<open>dim_merchants\<close> (the foreign key of \<open>create_tables.py\<close>).
\<close>

definition upsert_facts :: "nat \<Rightarrow> sink \<Rightarrow> daily_frame \<Rightarrow> (error + int) \<times> sink" where
  "upsert_facts now engine daily =
     (let s1 = engine\<lparr>stg_daily_metrics := Some []\<rparr>
      in case those (map stage_daily (drows daily)) of
           None \<Rightarrow> (Inl (DBError NotNullViolation), s1)
         | Some staged \<Rightarrow>
             (let s2 = s1\<lparr>stg_daily_metrics := Some staged\<rparr>
              in if \<not> distinct (map fst staged) then (Inl (DBError DuplicateKey), s2)
                 else if \<not> list_all (\<lambda>(k, v). fact_daily_merchant_metrics s2 k \<noteq> None
                                          \<or> dim_merchants s2 (snd k) \<noteq> None) staged
                 then (Inl (DBError ForeignKeyViolation), s2)
                 else (Inr (int (length (drows daily))),
                       s2\<lparr>fact_daily_merchant_metrics :=
                            merge_rows now staged (fact_daily_merchant_metrics s2),
                          stg_daily_metrics := None\<rparr>)))"

section \<open>The run\<close>

text \<open>
  \<open>main\<close>, with the two frames that \<open>extract\<close> read, the sink of the engine that
  \<open>get_engine\<close> built and the database clock of this run as arguments. The same \<open>merchants\<close> object goes to
  \<open>validate_and_clean\<close> and then to \<open>load_merchants\<close>: the frame that reaches the loader is
  the one the validator updated in place. An exception ends the run where it is raised.
\<close>

definition main ::
  "(cell list \<Rightarrow> rat option list) \<Rightarrow> (cell list \<Rightarrow> int option list) \<Rightarrow> nat \<Rightarrow>
   table \<Rightarrow> table \<Rightarrow> sink \<Rightarrow> (error + RunStats) \<times> sink" where
  "main to_numeric to_datetime now merchants txns engine =
     (case validate_and_clean to_numeric to_datetime merchants txns of
        Inl e \<Rightarrow> (Inl e, engine)
      | Inr out \<Rightarrow>
          (case transform_daily_metrics (clean_txns out) of
             Inl e \<Rightarrow> (Inl e, engine)
           | Inr daily \<Rightarrow>
               (case load_merchants now engine (merchants_after out) of
                  (Inl e, s1) \<Rightarrow> (Inl e, s1)
                | (Inr n, s1) \<Rightarrow>
                    (case upsert_facts now s1 daily of
                       (Inl e, s2) \<Rightarrow> (Inl e, s2)
                     | (Inr k, s2) \<Rightarrow>
                         (Inr ((stats out)\<lparr>merchants_loaded := n,
                                 daily_rows := int (length (drows daily)),
                                 fact_rows_upserted := k\<rparr>), s2)))))"

section \<open>Reference parsers\<close>

text \<open>
  Two parsers to run the pipeline on concrete inputs. They read only the plainest
  spellings, \<open>[-]digits[.digits]\<close> and \<open>YYYY-MM-DDTHH:MM:SSZ\<close>, on which pandas gives
  the same values; every other text is NaN or NaT.
\<close>

definition digit :: "char \<Rightarrow> nat option" where
  "digit c = (let n = of_char c :: nat in if 48 \<le> n \<and> n \<le> 57 then Some (n - 48) else None)"

fun digits :: "nat \<Rightarrow> string \<Rightarrow> nat option" where
  "digits acc [] = Some acc"
| "digits acc (c # cs) = (case digit c of None \<Rightarrow> None | Some d \<Rightarrow> digits (10 * acc + d) cs)"

definition number :: "string \<Rightarrow> nat option" where
  "number s = (if s = [] then None else digits 0 s)"

definition parse_decimal :: "string \<Rightarrow> rat option" where
  "parse_decimal s =
     (let neg = (take 1 s = ''-'');
          body = (if neg then drop 1 s else s);
          whole = takeWhile (\<lambda>c. c \<noteq> CHR ''.'') body;
          rest = dropWhile (\<lambda>c. c \<noteq> CHR ''.'') body;
          sg = (if neg then - 1 else 1)
      in case number whole of
           None \<Rightarrow> None
         | Some i \<Rightarrow>
             (if rest = [] then Some (sg * of_nat i)
              else (case number (drop 1 rest) of
                      None \<Rightarrow> None
                    | Some f \<Rightarrow> Some (sg * (of_nat i + of_nat f / 10 ^ length (drop 1 rest))))))"

definition plain_to_numeric :: "cell list \<Rightarrow> rat option list" where
  "plain_to_numeric col = map (\<lambda>c. case c of None \<Rightarrow> None | Some s \<Rightarrow> parse_decimal s) col"

text \<open>Days since 1970-01-01 of a date of the proleptic Gregorian calendar.\<close>

definition days_from_civil :: "int \<Rightarrow> int \<Rightarrow> int \<Rightarrow> int" where
  "days_from_civil y m d =
     (let y1 = (if m \<le> 2 then y - 1 else y);
          era = y1 div 400;
          yoe = y1 - era * 400;
          mp = (m + 9) mod 12;
          doy = (153 * mp + 2) div 5 + d - 1;
          doe = yoe * 365 + yoe div 4 - yoe div 100 + doy
      in era * 146097 + doe - 719468)"

definition days_in_month :: "int \<Rightarrow> int \<Rightarrow> int" where
  "days_in_month y m =
     (if m = 2 then (if y mod 4 = 0 \<and> (y mod 100 \<noteq> 0 \<or> y mod 400 = 0) then 29 else 28)
      else if m \<in> {4, 6, 9, 11} then 30 else 31)"

definition utc_instant :: "int \<Rightarrow> int \<Rightarrow> int \<Rightarrow> int \<Rightarrow> int \<Rightarrow> int \<Rightarrow> int" where
  "utc_instant y mo d h mi s =
     (days_from_civil y mo d * 86400 + h * 3600 + mi * 60 + s) * 1000000000"

definition parse_iso_utc :: "string \<Rightarrow> int option" where
  "parse_iso_utc s =
     (if length s = 20 \<and> s ! 4 = CHR ''-'' \<and> s ! 7 = CHR ''-'' \<and> s ! 10 = CHR ''T''
         \<and> s ! 13 = CHR '':'' \<and> s ! 16 = CHR '':'' \<and> s ! 19 = CHR ''Z''
      then (case number (take 4 s) of None \<Rightarrow> None | Some y \<Rightarrow>
            (case number (take 2 (drop 5 s)) of None \<Rightarrow> None | Some mo \<Rightarrow>
            (case number (take 2 (drop 8 s)) of None \<Rightarrow> None | Some d \<Rightarrow>
            (case number (take 2 (drop 11 s)) of None \<Rightarrow> None | Some h \<Rightarrow>
            (case number (take 2 (drop 14 s)) of None \<Rightarrow> None | Some mi \<Rightarrow>
            (case number (take 2 (drop 17 s)) of None \<Rightarrow> None | Some se \<Rightarrow>
               (if 1677 < y \<and> y < 2262 \<and> 1 \<le> mo \<and> mo \<le> 12 \<and> 1 \<le> d
                   \<and> int d \<le> days_in_month (int y) (int mo) \<and> h < 24 \<and> mi < 60 \<and> se < 60
                then Some (utc_instant (int y) (int mo) (int d) (int h) (int mi) (int se))
                else None)))))))
      else None)"

definition plain_to_datetime :: "cell list \<Rightarrow> int option list" where
  "plain_to_datetime col = map (\<lambda>c. case c of None \<Rightarrow> None | Some s \<Rightarrow> parse_iso_utc s) col"

section \<open>Sample inputs\<close>

text \<open>
  A merchant file with padded headers and cells and an empty name, and a transaction
  file with a repeated identifier (\<open>t1\<close>), a negative amount, an unknown merchant, an
  unknown status and an unreadable timestamp.
\<close>

definition sample_merchants :: table where
  "sample_merchants =
     \<lparr>columns = [''merchant_id'', '' merchant_name '', ''city''],
      rows = [[Some '' m1 '', Some ''Sunrise Coffee'', Some ''Irvine ''],
              [Some ''m2'', None, Some ''Tustin'']]\<rparr>"

definition sample_txns :: table where
  "sample_txns =
     \<lparr>columns = [''transaction_id'', ''merchant_id'', ''txn_ts_utc'', ''amount'', ''status '',
                 ''payment_method''],
      rows = [[Some ''t1'', Some ''m1'', Some ''2026-01-01T10:00:00Z'', Some ''10.00'', Some ''APPROVED'', Some ''CARD''],
              [Some ''t2'', Some ''m1'', Some ''2026-01-01T11:00:00Z'', Some '' 20.00'', Some ''DECLINED'', Some ''CARD''],
              [Some ''t1 '', Some ''m1'', Some ''2026-01-01T12:00:00Z'', Some ''99.00'', Some ''APPROVED'', Some ''CARD''],
              [Some ''t3'', Some ''m2'', Some ''2026-01-02T09:30:00Z'', Some ''7.50'', Some ''APPROVED'', None],
              [Some ''t4'', Some ''m1'', Some ''2026-01-02T09:30:00Z'', Some ''-5.00'', Some ''APPROVED'', Some ''CARD''],
              [Some ''t5'', Some ''m9'', Some ''2026-01-02T09:30:00Z'', Some ''5.00'', Some ''APPROVED'', Some ''CARD''],
              [Some ''t6'', Some ''m1'', Some ''2026-01-02T09:30:00Z'', Some ''5.00'', Some ''PENDING'', Some ''CARD''],
              [Some ''t7'', Some ''m1'', Some ''yesterday'', Some ''5.00'', Some ''APPROVED'', Some ''CARD'']]\<rparr>"

definition empty_sink :: sink where
  "empty_sink = \<lparr>dim_merchants = Map.empty, fact_daily_merchant_metrics = Map.empty,
     stg_merchants = None, stg_daily_metrics = None\<rparr>"

section \<open>Notions used in the statements\<close>

text \<open>
  The frame after lines 68-69 and 83-87 when its stripped labels are distinct, the rows
  with their parsed columns (lines 94-95), the conjunction of line 105, and the value
  \<open>validate_and_clean\<close> returns when it returns.
\<close>

definition stripped :: "table \<Rightarrow> table" where
  "stripped t =
     \<lparr>columns = map str_strip (columns t),
      rows = map (strip_row (map str_strip (columns t))) (rows t)\<rparr>"

definition parsed_rows ::
  "(cell list \<Rightarrow> rat option list) \<Rightarrow> (cell list \<Rightarrow> int option list) \<Rightarrow> table \<Rightarrow> txn_row list" where
  "parsed_rows to_numeric to_datetime t =
     attach (rows t) (to_numeric (column t ''amount'')) (to_datetime (column t ''txn_ts_utc''))"

definition valid_row :: "string set \<Rightarrow> string list \<Rightarrow> txn_row \<Rightarrow> bool" where
  "valid_row ids cols r =
     (valid_status cols r \<and> valid_amount r \<and> valid_ts r \<and> valid_merchant ids cols r)"

definition vc_success :: "(cell list \<Rightarrow> rat option list) \<Rightarrow> (cell list \<Rightarrow> int option list) \<Rightarrow>
   table \<Rightarrow> table \<Rightarrow> vc_out" where
  "vc_success tn td m t =
     (let post = drop_duplicates (stripped t) ''transaction_id'';
          clean = filter (valid_row (merchant_ids (stripped m)) (map str_strip (columns t)))
                    (parsed_rows tn td post)
      in \<lparr>merchants_after = stripped m, txns_after = stripped t,
          clean_txns = \<lparr>tcolumns = map str_strip (columns t), trows = clean\<rparr>,
          stats = RunStats0\<lparr>txns_total := int (length (rows t)),
                    txns_after_dedupe := int (length (rows post)),
                    txns_valid := int (length clean),
                    txns_rejected := int (length (rows post)) - int (length clean)\<rparr>\<rparr>)"

text \<open>
  What holds of every row of a cleaned table: the three row conditions of lines 98-100,
  and an identifier and a merchant identifier that are not NaN.
\<close>

definition clean_row :: "string list \<Rightarrow> txn_row \<Rightarrow> bool" where
  "clean_row cols r =
     (valid_status cols r \<and> valid_amount r \<and> valid_ts r
      \<and> cell_at cols (cells r) ''transaction_id'' \<noteq> None
      \<and> cell_at cols (cells r) ''merchant_id'' \<noteq> None)"

text \<open>The amount of a row (0 for NaN, as the sum skips it) and the two status tests.\<close>

definition amount_of :: "txn_row \<Rightarrow> rat" where
  "amount_of r = (case amount_num r of None \<Rightarrow> 0 | Some a \<Rightarrow> a)"

definition approved :: "string list \<Rightarrow> txn_row \<Rightarrow> bool" where
  "approved cols r = (cell_at cols (cells r) ''status'' = Some ''APPROVED'')"

definition declined :: "string list \<Rightarrow> txn_row \<Rightarrow> bool" where
  "declined cols r = (cell_at cols (cells r) ''status'' = Some ''DECLINED'')"

text \<open>What \<open>validate_and_clean\<close> returns on the sample inputs with the reference parsers.\<close>

definition sample_clean :: txn_table where
  "sample_clean =
     \<lparr>tcolumns = [''transaction_id'', ''merchant_id'', ''txn_ts_utc'', ''amount'', ''status'',
                  ''payment_method''],
      trows =
        [\<lparr>cells = [Some ''t1'', Some ''m1'', Some ''2026-01-01T10:00:00Z'', Some ''10.00'',
                   Some ''APPROVED'', Some ''CARD''],
          amount_num = Some 10, txn_ts = Some 1767261600000000000\<rparr>,
         \<lparr>cells = [Some ''t2'', Some ''m1'', Some ''2026-01-01T11:00:00Z'', Some ''20.00'',
                   Some ''DECLINED'', Some ''CARD''],
          amount_num = Some 20, txn_ts = Some 1767265200000000000\<rparr>,
         \<lparr>cells = [Some ''t3'', Some ''m2'', Some ''2026-01-02T09:30:00Z'', Some ''7.50'',
                   Some ''APPROVED'', Some ''nan''],
          amount_num = Some (15 / 2), txn_ts = Some 1767346200000000000\<rparr>]\<rparr>"

definition sample_out :: vc_out where
  "sample_out =
     \<lparr>merchants_after =
        \<lparr>columns = [''merchant_id'', ''merchant_name'', ''city''],
         rows = [[Some ''m1'', Some ''Sunrise Coffee'', Some ''Irvine''],
                 [Some ''m2'', Some ''nan'', Some ''Tustin'']]\<rparr>,
      txns_after =
        \<lparr>columns = [''transaction_id'', ''merchant_id'', ''txn_ts_utc'', ''amount'', ''status'',
                    ''payment_method''],
         rows = [[Some ''t1'', Some ''m1'', Some ''2026-01-01T10:00:00Z'', Some ''10.00'', Some ''APPROVED'', Some ''CARD''],
                 [Some ''t2'', Some ''m1'', Some ''2026-01-01T11:00:00Z'', Some ''20.00'', Some ''DECLINED'', Some ''CARD''],
                 [Some ''t1'', Some ''m1'', Some ''2026-01-01T12:00:00Z'', Some ''99.00'', Some ''APPROVED'', Some ''CARD''],
                 [Some ''t3'', Some ''m2'', Some ''2026-01-02T09:30:00Z'', Some ''7.50'', Some ''APPROVED'', Some ''nan''],
                 [Some ''t4'', Some ''m1'', Some ''2026-01-02T09:30:00Z'', Some ''-5.00'', Some ''APPROVED'', Some ''CARD''],
                 [Some ''t5'', Some ''m9'', Some ''2026-01-02T09:30:00Z'', Some ''5.00'', Some ''APPROVED'', Some ''CARD''],
                 [Some ''t6'', Some ''m1'', Some ''2026-01-02T09:30:00Z'', Some ''5.00'', Some ''PENDING'', Some ''CARD''],
                 [Some ''t7'', Some ''m1'', Some ''yesterday'', Some ''5.00'', Some ''APPROVED'', Some ''CARD'']]\<rparr>,
      clean_txns = sample_clean,
      stats = \<lparr>txns_total = 8, txns_after_dedupe = 7, txns_valid = 3, txns_rejected = 4,
                merchants_loaded = 0, daily_rows = 0, fact_rows_upserted = 0\<rparr>\<rparr>"

text \<open>
  The value of \<open>daily\<close> in \<open>main\<close> (lines 275-277), or the exception raised before it, and
  the stripped transaction identifier of a row of the file.
\<close>

definition daily_of ::
  "(cell list \<Rightarrow> rat option list) \<Rightarrow> (cell list \<Rightarrow> int option list) \<Rightarrow>
   table \<Rightarrow> table \<Rightarrow> error + daily_frame" where
  "daily_of to_numeric to_datetime merchants txns =
     (case validate_and_clean to_numeric to_datetime merchants txns of
        Inl e \<Rightarrow> Inl e
      | Inr out \<Rightarrow> transform_daily_metrics (clean_txns out))"

definition stripped_id :: "table \<Rightarrow> cell list \<Rightarrow> string" where
  "stripped_id txns raw =
     str_strip (astype_str (cell_at (map str_strip (columns txns)) raw ''transaction_id''))"

text \<open>
  Two files with headers and no rows; the merchant file has the labels \<open>city\<close> and
  \<open> city\<close>, equal once stripped.
\<close>

definition headers_only_merchants :: table where
  "headers_only_merchants =
     \<lparr>columns = [''merchant_id'', ''merchant_name'', ''city'', '' city''], rows = []\<rparr>"

definition headers_only_txns :: table where
  "headers_only_txns =
     \<lparr>columns = [''transaction_id'', ''merchant_id'', ''txn_ts_utc'', ''amount'', ''status''],
      rows = []\<rparr>"

text \<open>A transaction file without the \<open>status\<close> column.\<close>

definition no_status_txns :: table where
  "no_status_txns =
     \<lparr>columns = [''transaction_id'', ''merchant_id'', ''txn_ts_utc'', ''amount'', ''payment_method''],
      rows = [[Some ''t1'', Some ''m1'', Some ''2026-01-01T10:00:00Z'', Some ''10.00'', Some ''CARD'']]\<rparr>"

text \<open>
  The end-to-end scenario of the specification: the merchant \<open>m1\<close>, of any name, two
  transactions, and the cleaned table they give.
\<close>

definition scenario_merchants :: "cell \<Rightarrow> table" where
  "scenario_merchants name =
     \<lparr>columns = [''merchant_id'', ''merchant_name''], rows = [[Some ''m1'', name]]\<rparr>"

definition scenario_txns :: table where
  "scenario_txns =
     \<lparr>columns = [''transaction_id'', ''merchant_id'', ''txn_ts_utc'', ''amount'', ''status''],
      rows = [[Some ''t1'', Some ''m1'', Some ''2026-01-01T10:00:00Z'', Some ''10.00'', Some ''APPROVED''],
              [Some ''t2'', Some ''m1'', Some ''2026-01-01T11:00:00Z'', Some ''20.00'', Some ''DECLINED'']]\<rparr>"

definition scenario_clean :: txn_table where
  "scenario_clean =
     \<lparr>tcolumns = [''transaction_id'', ''merchant_id'', ''txn_ts_utc'', ''amount'', ''status''],
      trows =
        [\<lparr>cells = [Some ''t1'', Some ''m1'', Some ''2026-01-01T10:00:00Z'', Some ''10.00'', Some ''APPROVED''],
          amount_num = Some 10, txn_ts = Some (utc_instant 2026 1 1 10 0 0)\<rparr>,
         \<lparr>cells = [Some ''t2'', Some ''m1'', Some ''2026-01-01T11:00:00Z'', Some ''20.00'', Some ''DECLINED''],
          amount_num = Some 20, txn_ts = Some (utc_instant 2026 1 1 11 0 0)\<rparr>]\<rparr>"

text \<open>A text that \<open>strip\<close> leaves alone, with no whitespace at either end.\<close>

definition trimmed :: "string \<Rightarrow> bool" where
  "trimmed v = (str_strip v = v \<and> (v = [] \<or> (\<not> is_space (hd v) \<and> \<not> is_space (last v))))"

section \<open>Basic lemmas\<close>

lemma select_mask_map: "select_mask xs (map p xs) = filter p xs"
  unfolding select_mask_def by (induction xs) auto

lemma mask_and_map: "mask_and (map p xs) (map q xs) = map (\<lambda>x. p x \<and> q x) xs"
  unfolding mask_and_def by (induction xs) auto

lemma length_attach: "length (attach rs ns ts) = length rs"
  by (induction rs arbitrary: ns ts) auto

lemma map_cells_attach: "map cells (attach rs ns ts) = rs"
  by (induction rs arbitrary: ns ts) auto

lemma columns_drop_duplicates: "columns (drop_duplicates t c) = columns t"
  by (simp add: drop_duplicates_def)

lemma strip_cells_strip_columns:
  "strip_cells (strip_columns t) =
     (if distinct (map str_strip (columns t)) then Inr (stripped t) else Inl AttributeError)"
  by (simp add: strip_cells_def strip_columns_def stripped_def)

lemma validate_and_clean_unfold:
  "validate_and_clean tn td m t =
     (if \<not> required_merch_cols \<subseteq> set (map str_strip (columns m))
      then Inl (ValueError ''merchants.csv'' (required_merch_cols - set (map str_strip (columns m))))
      else if \<not> required_txn_cols \<subseteq> set (map str_strip (columns t))
      then Inl (ValueError ''transactions.csv'' (required_txn_cols - set (map str_strip (columns t))))
      else if \<not> distinct (map str_strip (columns m)) \<or> \<not> distinct (map str_strip (columns t))
      then Inl AttributeError
      else Inr (vc_success tn td m t))"
proof -
  have cm: "columns (strip_columns m) = map str_strip (columns m)"
    and ct: "columns (strip_columns t) = map str_strip (columns t)"
    by (simp_all add: strip_columns_def)
  have cs: "columns (stripped t) = map str_strip (columns t)"
    by (simp add: stripped_def)
  have vr: "(\<lambda>x. ((valid_status cols x \<and> valid_amount x) \<and> valid_ts x) \<and> valid_merchant ids cols x)
      = valid_row ids cols" for ids cols
    by (auto simp: valid_row_def fun_eq_iff)
  show ?thesis
    unfolding validate_and_clean_def Let_def strip_cells_strip_columns cm ct
      mask_and_map select_mask_map vr
    by (simp add: vc_success_def Let_def columns_drop_duplicates cs parsed_rows_def length_attach)
qed

lemma select_mask_Cons:
  "select_mask (x # xs) (b # bs) = (if b then x # select_mask xs bs else select_mask xs bs)"
  by (simp add: select_mask_def)

lemma select_mask_Nil: "select_mask [] bs = []"
  by (simp add: select_mask_def)

lemma duplicated_seen_cong: "set s = set s' \<Longrightarrow> duplicated s ks = duplicated s' ks"
proof (induction ks arbitrary: s s')
  case Nil
  show ?case by simp
next
  case (Cons k ks)
  have "duplicated (k # s) ks = duplicated (k # s') ks"
    by (rule Cons.IH) (simp add: Cons.prems)
  then show ?case using Cons.prems by simp
qed

lemma keep_first_index:
  "select_mask xs (map Not (duplicated seen (map key xs))) =
     map (nth xs) (filter (\<lambda>i. key (xs ! i) \<notin> set seen \<union> key ` set (take i xs)) [0..<length xs])"
proof (induction xs arbitrary: seen)
  case Nil
  show ?case by (simp add: select_mask_Nil)
next
  case (Cons x xs)
  have upt: "[0..<length (x # xs)] = 0 # map Suc [0..<length xs]"
    by (simp add: upt_conv_Cons map_Suc_upt del: upt_Suc)
  let ?P = "\<lambda>i. key ((x # xs) ! i) \<notin> set seen \<union> key ` set (take i (x # xs))"
  let ?Q = "\<lambda>i. key (xs ! i) \<notin> set (key x # seen) \<union> key ` set (take i xs)"
  let ?hd = "if key x \<in> set seen then [] else [x]"
  have tl: "map (nth (x # xs)) (filter ?P (map Suc [0..<length xs]))
          = map (nth xs) (filter ?Q [0..<length xs])"
    by (simp add: filter_map comp_def conj_ac)
  have lhs: "select_mask (x # xs) (map Not (duplicated seen (map key (x # xs))))
          = ?hd @ select_mask xs (map Not (duplicated (key x # seen) (map key xs)))"
    by (simp add: select_mask_Cons)
  have rhs: "map (nth (x # xs)) (filter ?P (0 # map Suc [0..<length xs]))
          = ?hd @ map (nth (x # xs)) (filter ?P (map Suc [0..<length xs]))"
    by simp
  show ?case
    unfolding upt lhs rhs tl Cons.IH [of "key x # seen"] ..
qed

lemma keep_first_later_duplicate:
  "key x \<in> set seen \<union> key ` set xs \<Longrightarrow>
   select_mask (xs @ x # ys) (map Not (duplicated seen (map key (xs @ x # ys)))) =
   select_mask (xs @ ys) (map Not (duplicated seen (map key (xs @ ys))))"
proof (induction xs arbitrary: seen)
  case Nil
  then have "set (key x # seen) = set seen" by auto
  then have "duplicated (key x # seen) (map key ys) = duplicated seen (map key ys)"
    by (rule duplicated_seen_cong)
  with Nil show ?case by (simp add: select_mask_Cons)
next
  case (Cons a xs)
  have "key x \<in> set (key a # seen) \<union> key ` set xs" using Cons.prems by auto
  from Cons.IH [OF this] show ?case by (simp add: select_mask_Cons)
qed

lemma keep_first_distinct:
  "distinct (map key (select_mask xs (map Not (duplicated seen (map key xs)))))
   \<and> set (map key (select_mask xs (map Not (duplicated seen (map key xs))))) = key ` set xs - set seen"
proof (induction xs arbitrary: seen)
  case Nil
  show ?case by (simp add: select_mask_Nil)
next
  case (Cons x xs)
  from Cons.IH [of "key x # seen"] show ?case
    by (auto simp: select_mask_Cons)
qed

lemma rint_cases: "rint x = \<lfloor>x\<rfloor> \<or> (rint x = \<lfloor>x\<rfloor> + 1 \<and> 1 / 2 \<le> x - of_int \<lfloor>x\<rfloor>)"
  by (auto simp: rint_def Let_def)

lemma rint_lower: "of_int n \<le> x \<Longrightarrow> n \<le> rint x"
proof -
  assume "of_int n \<le> x"
  then have "n \<le> \<lfloor>x\<rfloor>" by (simp add: le_floor_iff)
  with rint_cases [of x] show ?thesis by auto
qed

lemma rint_upper: "x \<le> of_int n \<Longrightarrow> rint x \<le> n"
proof -
  assume le: "x \<le> of_int n"
  have fl: "\<lfloor>x\<rfloor> \<le> n" using le by (simp add: floor_le_iff)
  show ?thesis
  proof (cases "rint x = \<lfloor>x\<rfloor>")
    case True
    with fl show ?thesis by simp
  next
    case False
    with rint_cases [of x] have r: "rint x = \<lfloor>x\<rfloor> + 1" and h: "1 / 2 \<le> x - of_int \<lfloor>x\<rfloor>"
      by auto
    have "of_int \<lfloor>x\<rfloor> < x" using h by linarith
    then have "of_int \<lfloor>x\<rfloor> < (of_int n :: rat)" using le by linarith
    then have "\<lfloor>x\<rfloor> < n" by simp
    with r show ?thesis by simp
  qed
qed


lemma np_round_unit: "0 \<le> x \<Longrightarrow> x \<le> 1 \<Longrightarrow> 0 \<le> np_round d x \<and> np_round d x \<le> 1"
proof -
  assume x: "0 \<le> x" "x \<le> 1"
  have "of_int 0 \<le> x * 10 ^ d" using x by simp
  then have lo: "0 \<le> rint (x * 10 ^ d)" by (rule rint_lower)
  have "x * 10 ^ d \<le> 1 * 10 ^ d" using x by (intro mult_right_mono) simp_all
  then have "x * 10 ^ d \<le> of_int (10 ^ d)" by simp
  then have hi: "rint (x * 10 ^ d) \<le> 10 ^ d" by (rule rint_upper)
  have "(of_int (rint (x * 10 ^ d)) :: rat) \<le> of_int (10 ^ d)" using hi by (simp only: of_int_le_iff)
  then have "(of_int (rint (x * 10 ^ d)) :: rat) \<le> 10 ^ d" by simp
  with lo show ?thesis by (simp add: np_round_def divide_le_eq)
qed


lemma cell_at_strip_row:
  "c \<in> set cols \<Longrightarrow>
   cell_at cols (strip_row cols r) c = Some (str_strip (astype_str (cell_at cols r c)))"
  by (simp add: cell_at_def strip_row_def map_of_zip_map)

lemma cell_at_absent: "c \<notin> set cols \<Longrightarrow> cell_at cols (strip_row cols r) c = None"
  by (simp add: cell_at_def strip_row_def map_of_zip_map)

lemma set_select_mask: "set (select_mask xs bs) \<subseteq> set xs"
  unfolding select_mask_def by (auto dest: set_zip_leftD)

lemma rows_drop_duplicates_subset: "set (rows (drop_duplicates t c)) \<subseteq> set (rows t)"
  by (simp add: drop_duplicates_def set_select_mask)

lemma cells_parsed_rows: "r \<in> set (parsed_rows tn td t) \<Longrightarrow> cells r \<in> set (rows t)"
proof -
  assume "r \<in> set (parsed_rows tn td t)"
  then have "cells r \<in> set (map cells (parsed_rows tn td t))" by simp
  then show ?thesis by (simp add: parsed_rows_def map_cells_attach)
qed

lemma required_txn_colsD:
  "required_txn_cols \<subseteq> S \<Longrightarrow>
   ''transaction_id'' \<in> S \<and> ''merchant_id'' \<in> S \<and> ''txn_ts_utc'' \<in> S \<and> ''amount'' \<in> S \<and> ''status'' \<in> S"
  by (simp add: required_txn_cols_def)

lemma validate_and_clean_InrD:
  assumes "validate_and_clean tn td m t = Inr out"
  shows "required_merch_cols \<subseteq> set (map str_strip (columns m))"
    and "required_txn_cols \<subseteq> set (map str_strip (columns t))"
    and "distinct (map str_strip (columns m))"
    and "distinct (map str_strip (columns t))"
    and "out = vc_success tn td m t"
  using assms unfolding validate_and_clean_unfold by (auto split: if_splits)

lemma clean_rows_of_success:
  assumes req: "required_txn_cols \<subseteq> set (map str_strip (columns t))"
    and r: "r \<in> set (trows (clean_txns (vc_success tn td m t)))"
  shows "clean_row (map str_strip (columns t)) r"
proof -
  let ?cols = "map str_strip (columns t)"
  from r have v: "valid_row (merchant_ids (stripped m)) ?cols r"
    and p: "r \<in> set (parsed_rows tn td (drop_duplicates (stripped t) ''transaction_id''))"
    by (simp_all add: vc_success_def Let_def)
  from cells_parsed_rows [OF p] rows_drop_duplicates_subset
  have "cells r \<in> set (rows (stripped t))" by blast
  then obtain raw where c: "cells r = strip_row ?cols raw"
    by (auto simp: stripped_def)
  from required_txn_colsD [OF req]
  have "''transaction_id'' \<in> set ?cols" and "''merchant_id'' \<in> set ?cols" by simp_all
  then have "cell_at ?cols (cells r) ''transaction_id'' \<noteq> None"
    and "cell_at ?cols (cells r) ''merchant_id'' \<noteq> None"
    unfolding c by (simp_all add: cell_at_strip_row)
  with v show ?thesis by (simp add: clean_row_def valid_row_def)
qed

lemma validate_and_clean_clean_rows:
  assumes "validate_and_clean tn td m t = Inr out"
  shows "''status'' \<in> set (tcolumns (clean_txns out))"
    and "''merchant_id'' \<in> set (tcolumns (clean_txns out))"
    and "''transaction_id'' \<in> set (tcolumns (clean_txns out))"
    and "\<forall>r\<in>set (trows (clean_txns out)). clean_row (tcolumns (clean_txns out)) r"
proof -
  note d = validate_and_clean_InrD [OF assms]
  have tc: "tcolumns (clean_txns out) = map str_strip (columns t)"
    by (simp add: d(5) vc_success_def Let_def)
  from required_txn_colsD [OF d(2)]
  show "''status'' \<in> set (tcolumns (clean_txns out))"
    and "''merchant_id'' \<in> set (tcolumns (clean_txns out))"
    and "''transaction_id'' \<in> set (tcolumns (clean_txns out))"
    unfolding tc by simp_all
  show "\<forall>r\<in>set (trows (clean_txns out)). clean_row (tcolumns (clean_txns out)) r"
    unfolding tc using clean_rows_of_success [OF d(2)] by (simp add: d(5))
qed

lemma transform_daily_metrics_Inr:
  assumes "''status'' \<in> set (tcolumns T)" "''merchant_id'' \<in> set (tcolumns T)"
    "''transaction_id'' \<in> set (tcolumns T)"
  shows "transform_daily_metrics T =
     Inr \<lparr>dcolumns = daily_columns,
          drows = map (agg_group (tcolumns T) (trows T)) (group_keys (tcolumns T) (trows T))\<rparr>"
  using assms by (simp add: transform_daily_metrics_def Let_def)

lemma set_map_filter_eq: "set (List.map_filter f xs) = {y. \<exists>x\<in>set xs. f x = Some y}"
  by (induction xs) (auto split: option.splits)

lemma set_group_keys:
  "set (group_keys cols rs) = {k. \<exists>r\<in>set rs. group_key cols r = Some k}"
  by (simp add: group_keys_def set_map_filter_eq)


lemma sum_is_approved:
  "sum_list (map (is_approved cols) g) =
     int (length (filter (\<lambda>r. cell_at cols (cells r) ''status'' = Some ''APPROVED'') g))"
  by (induction g) (simp_all add: is_approved_def)

lemma sum_is_declined:
  "sum_list (map (is_declined cols) g) =
     int (length (filter (\<lambda>r. cell_at cols (cells r) ''status'' = Some ''DECLINED'') g))"
  by (induction g) (simp_all add: is_declined_def)

lemma count_ids:
  "\<forall>r\<in>set g. cell_at cols (cells r) ''transaction_id'' \<noteq> None \<Longrightarrow>
   filter (\<lambda>r. cell_at cols (cells r) ''transaction_id'' \<noteq> None) g = g"
  by (induction g) auto


lemma nansum_amounts: "nansum (map amount_num g) = sum_list (map amount_of g)"
  by (induction g) (simp_all add: nansum_def amount_of_def)

lemma nansum_approved_amounts:
  "nansum (map (approved_amount_of cols) g) =
     sum_list (map (\<lambda>r. if approved cols r then amount_of r else 0) g)"
  by (induction g) (simp_all add: nansum_def approved_amount_of_def approved_def amount_of_def)

lemma group_rows_nonempty: "k \<in> set (group_keys cols rs) \<Longrightarrow> group_rows cols rs k \<noteq> []"
  by (auto simp: set_group_keys group_rows_def filter_empty_conv)

lemma agg_group_clean:
  assumes inv: "\<forall>r\<in>set rs. clean_row cols r" and k: "k \<in> set (group_keys cols rs)"
  shows "agg_group cols rs k =
     \<lparr>metric_date = fst k, merchant_id = snd k,
      txn_count = int (length (group_rows cols rs k)),
      approved_txn_count = int (length (filter (approved cols) (group_rows cols rs k))),
      declined_txn_count = int (length (filter (declined cols) (group_rows cols rs k))),
      gross_amount = sum_list (map amount_of (group_rows cols rs k)),
      approved_amount =
        sum_list (map (\<lambda>r. if approved cols r then amount_of r else 0) (group_rows cols rs k)),
      approval_rate =
        Some (np_round 4 (of_int (int (length (filter (approved cols) (group_rows cols rs k))))
                           / of_int (int (length (group_rows cols rs k))))),
      avg_ticket =
        Some (np_round 2 (sum_list (map amount_of (group_rows cols rs k))
                           / of_int (int (length (group_rows cols rs k)))))\<rparr>"
proof -
  let ?g = "group_rows cols rs k"
  have sub: "set ?g \<subseteq> set rs" by (auto simp: group_rows_def)
  with inv have "\<forall>r\<in>set ?g. cell_at cols (cells r) ''transaction_id'' \<noteq> None"
    by (auto simp: clean_row_def)
  then have cnt: "filter (\<lambda>r. cell_at cols (cells r) ''transaction_id'' \<noteq> None) ?g = ?g"
    by (rule count_ids)
  have ne: "length ?g \<noteq> 0" using group_rows_nonempty [OF k] by simp
  have a: "(\<lambda>r. cell_at cols (cells r) ''status'' = Some ''APPROVED'') = approved cols"
    and d: "(\<lambda>r. cell_at cols (cells r) ''status'' = Some ''DECLINED'') = declined cols"
    by (simp_all add: approved_def declined_def fun_eq_iff)
  show ?thesis
    unfolding agg_group_def Let_def cnt sum_is_approved sum_is_declined a d
      nansum_amounts nansum_approved_amounts
    using ne by (simp add: true_div_def)
qed

lemma approved_declined_partition:
  "\<forall>r\<in>set g. valid_status cols r \<Longrightarrow>
   int (length (filter (approved cols) g)) + int (length (filter (declined cols) g)) = int (length g)"
  by (induction g) (auto simp: approved_def declined_def valid_status_def)





lemma sample_validate:
  "validate_and_clean plain_to_numeric plain_to_datetime sample_merchants sample_txns = Inr sample_out"
  by code_simp

lemma drows_clean:
  assumes v: "validate_and_clean tn td m t = Inr out"
  shows "transform_daily_metrics (clean_txns out) =
     Inr \<lparr>dcolumns = daily_columns,
          drows = map (agg_group (tcolumns (clean_txns out)) (trows (clean_txns out)))
                    (group_keys (tcolumns (clean_txns out)) (trows (clean_txns out)))\<rparr>"
  using validate_and_clean_clean_rows [OF v] by (intro transform_daily_metrics_Inr)

lemma merchant_ids_stripped:
  assumes "''merchant_id'' \<in> set (map str_strip (columns m))"
  shows "merchant_ids (stripped m) =
     (\<lambda>raw. str_strip (astype_str (cell_at (map str_strip (columns m)) raw ''merchant_id'')))
       ` set (rows m)"
proof -
  have "column (stripped m) ''merchant_id'' =
      map (\<lambda>raw. Some (str_strip (astype_str (cell_at (map str_strip (columns m)) raw ''merchant_id''))))
        (rows m)"
    using assms by (simp add: column_def stripped_def cell_at_strip_row comp_def)
  then show ?thesis
    by (simp add: merchant_ids_def astype_str_def comp_def image_image)
qed



lemma rows_drop_duplicates_index:
  "rows (drop_duplicates t c) =
     map (nth (rows t))
       (filter (\<lambda>i. column t c ! i \<notin> set (take i (column t c))) [0..<length (rows t)])"
proof -
  let ?key = "\<lambda>r. cell_at (columns t) r c"
  have col: "column t c = map ?key (rows t)" by (simp add: column_def)
  have "filter (\<lambda>i. ?key (rows t ! i) \<notin> set [] \<union> ?key ` set (take i (rows t))) [0..<length (rows t)]
      = filter (\<lambda>i. column t c ! i \<notin> set (take i (column t c))) [0..<length (rows t)]"
    by (rule filter_cong) (simp_all add: col take_map)
  then show ?thesis
    unfolding drop_duplicates_def col
    by (simp add: keep_first_index [of "rows t" "[]" ?key])
qed

lemma column_drop_duplicates:
  "distinct (column (drop_duplicates t c) c) \<and> set (column (drop_duplicates t c) c) = set (column t c)"
proof -
  let ?key = "\<lambda>r. cell_at (columns t) r c"
  from keep_first_distinct [of ?key "rows t" "[]"] show ?thesis
    by (simp add: drop_duplicates_def column_def)
qed

lemma drop_duplicates_later_duplicate:
  assumes c: "c \<in> set (map str_strip (columns t))"
    and dup: "str_strip (astype_str (cell_at (map str_strip (columns t)) r2 c))
        \<in> (\<lambda>raw. str_strip (astype_str (cell_at (map str_strip (columns t)) raw c))) ` set before"
  shows "drop_duplicates (stripped (t\<lparr>rows := before @ r2 # after\<rparr>)) c =
         drop_duplicates (stripped (t\<lparr>rows := before @ after\<rparr>)) c"
proof -
  let ?cols = "map str_strip (columns t)"
  let ?f = "strip_row ?cols"
  let ?key = "\<lambda>r. cell_at ?cols r c"
  have k: "?key (?f raw) = Some (str_strip (astype_str (cell_at ?cols raw c)))" for raw
    using c by (simp add: cell_at_strip_row)
  have "?key (?f r2) \<in> set [] \<union> ?key ` set (map ?f before)"
    using dup by (auto simp: k image_iff)
  from keep_first_later_duplicate [of ?key "?f r2" "[]" "map ?f before" "map ?f after", OF this]
  show ?thesis
    by (simp add: drop_duplicates_def stripped_def column_def)
qed

lemma daily_of_later_duplicate:
  assumes "stripped_id txns r2 \<in> stripped_id txns ` set before"
  shows "daily_of tn td m (txns\<lparr>rows := before @ r2 # after\<rparr>) =
         daily_of tn td m (txns\<lparr>rows := before @ after\<rparr>)"
proof (cases "required_txn_cols \<subseteq> set (map str_strip (columns txns))")
  case False
  then show ?thesis by (simp add: daily_of_def validate_and_clean_unfold)
next
  case True
  then have "''transaction_id'' \<in> set (map str_strip (columns txns))"
    using required_txn_colsD by blast
  from drop_duplicates_later_duplicate [OF this, of r2 before after] assms
  have "drop_duplicates (stripped (txns\<lparr>rows := before @ r2 # after\<rparr>)) ''transaction_id'' =
        drop_duplicates (stripped (txns\<lparr>rows := before @ after\<rparr>)) ''transaction_id''"
    by (simp add: stripped_id_def)
  then have "clean_txns (vc_success tn td m (txns\<lparr>rows := before @ r2 # after\<rparr>)) =
             clean_txns (vc_success tn td m (txns\<lparr>rows := before @ after\<rparr>))"
    by (simp add: vc_success_def Let_def)
  then show ?thesis by (simp add: daily_of_def validate_and_clean_unfold)
qed

lemma vc_success_no_rows:
  assumes "rows t = []"
  shows "clean_txns (vc_success tn td m t) = \<lparr>tcolumns = map str_strip (columns t), trows = []\<rparr>"
    and "stats (vc_success tn td m t) = RunStats0"
  using assms
  by (simp_all add: vc_success_def Let_def stripped_def drop_duplicates_def select_mask_Nil
      parsed_rows_def RunStats0_def)

lemma validate_and_clean_missing:
  assumes "\<not> required_merch_cols \<subseteq> set (map str_strip (columns m))
         \<or> \<not> required_txn_cols \<subseteq> set (map str_strip (columns t))"
  shows "\<exists>fname missing. 
        (\<forall>tn td mrows trows.
            validate_and_clean tn td (m\<lparr>rows := mrows\<rparr>) (t\<lparr>rows := trows\<rparr>)
              = Inl (ValueError fname missing))
      \<and> missing \<noteq> {}
      \<and> (fname = ''merchants.csv''
            \<and> missing = required_merch_cols - set (map str_strip (columns m))
          \<or> fname = ''transactions.csv''
            \<and> missing = required_txn_cols - set (map str_strip (columns t)))"
proof (cases "required_merch_cols \<subseteq> set (map str_strip (columns m))")
  case False
  then have "required_merch_cols - set (map str_strip (columns m)) \<noteq> {}" by blast
  with False show ?thesis
    by (intro exI [of _ "''merchants.csv''"]
        exI [of _ "required_merch_cols - set (map str_strip (columns m))"])
      (simp add: validate_and_clean_unfold)
next
  case True
  with assms have f: "\<not> required_txn_cols \<subseteq> set (map str_strip (columns t))" by simp
  then have "required_txn_cols - set (map str_strip (columns t)) \<noteq> {}" by blast
  with True f show ?thesis
    by (intro exI [of _ "''transactions.csv''"]
        exI [of _ "required_txn_cols - set (map str_strip (columns t))"])
      (simp add: validate_and_clean_unfold)
qed

lemma table_rows_same: "(t::table)\<lparr>rows := rows t\<rparr> = t"
  by simp

lemma scenario_clean_txns:
  assumes n: "to_numeric [Some ''10.00'', Some ''20.00''] = [Some 10, Some 20]"
    and d: "to_datetime [Some ''2026-01-01T10:00:00Z'', Some ''2026-01-01T11:00:00Z'']
        = [Some (utc_instant 2026 1 1 10 0 0), Some (utc_instant 2026 1 1 11 0 0)]"
  shows "clean_txns (vc_success to_numeric to_datetime (scenario_merchants name) scenario_txns)
       = scenario_clean"
proof -
  have s: "stripped scenario_txns = scenario_txns" by code_simp
  have dd: "drop_duplicates scenario_txns ''transaction_id'' = scenario_txns" by code_simp
  have ca: "column scenario_txns ''amount'' = [Some ''10.00'', Some ''20.00'']" by code_simp
  have ct: "column scenario_txns ''txn_ts_utc''
      = [Some ''2026-01-01T10:00:00Z'', Some ''2026-01-01T11:00:00Z'']" by code_simp
  have cols: "map str_strip (columns scenario_txns) = tcolumns scenario_clean" by code_simp
  have p: "parsed_rows to_numeric to_datetime scenario_txns = trows scenario_clean"
    unfolding parsed_rows_def ca ct n d by (simp add: scenario_txns_def scenario_clean_def)
  have mc: "map str_strip (columns (scenario_merchants name)) = [''merchant_id'', ''merchant_name'']"
    unfolding scenario_merchants_def table.simps by code_simp
  have st: "str_strip ''m1'' = ''m1''" by code_simp
  have ids: "merchant_ids (stripped (scenario_merchants name)) = set [''m1'']"
    by (subst merchant_ids_stripped) (simp_all add: mc, simp add: scenario_merchants_def cell_at_def astype_str_def st)
  have f: "filter (valid_row (set [''m1'']) (tcolumns scenario_clean)) (trows scenario_clean)
      = trows scenario_clean" by code_simp
  show ?thesis
    unfolding vc_success_def Let_def s dd p ids cols f by simp
qed

lemma scenario_validates:
  "validate_and_clean to_numeric to_datetime (scenario_merchants name) scenario_txns
     = Inr (vc_success to_numeric to_datetime (scenario_merchants name) scenario_txns)"
proof -
  have mc: "map str_strip (columns (scenario_merchants name)) = [''merchant_id'', ''merchant_name'']"
    unfolding scenario_merchants_def table.simps by code_simp
  have a: "required_merch_cols \<subseteq> set [''merchant_id'', ''merchant_name'']"
    and b: "distinct [''merchant_id'', ''merchant_name'']"
    and c: "required_txn_cols \<subseteq> set (map str_strip (columns scenario_txns))"
    and e: "distinct (map str_strip (columns scenario_txns))"
    by code_simp+
  show ?thesis unfolding validate_and_clean_unfold mc using a b c e by simp
qed

lemma scenario_transform:
  "transform_daily_metrics scenario_clean =
     Inr \<lparr>dcolumns = daily_columns,
          drows = [\<lparr>metric_date = days_from_civil 2026 1 1, merchant_id = ''m1'', txn_count = 2,
                    approved_txn_count = 1, declined_txn_count = 1, gross_amount = 30,
                    approved_amount = 10, approval_rate = Some (1 / 2), avg_ticket = Some 15\<rparr>]\<rparr>"
  by code_simp

lemma merge_rows_twice: "merge_rows now2 src (merge_rows now1 src tgt) = merge_rows now1 src tgt"
  by (rule ext) (simp add: merge_rows_def split: option.splits)

lemma merge_rows_defined: "k \<in> fst ` set src \<Longrightarrow> merge_rows now src tgt k \<noteq> None"
proof -
  assume "k \<in> fst ` set src"
  then have "map_of src k \<noteq> None" by (simp add: map_of_eq_None_iff)
  then show ?thesis by (auto simp: merge_rows_def split: option.splits)
qed

lemma load_merchants_again:
  assumes "load_merchants now1 s0 m = (r, s1)"
    and "dim_merchants s = dim_merchants s1" and "stg_merchants s = stg_merchants s1"
  shows "load_merchants now2 s m = (r, s)"
proof (cases "those (map stage_merchant (rows (merchants_to_load m)))")
  case None
  with assms show ?thesis
    by (cases s) (auto simp: load_merchants_def Let_def)
next
  case (Some staged)
  show ?thesis
  proof (cases "distinct (map fst staged)")
    case False
    with Some assms show ?thesis
      by (cases s) (auto simp: load_merchants_def Let_def)
  next
    case True
    with Some assms show ?thesis
      by (cases s) (auto simp: load_merchants_def Let_def merge_rows_twice)
  qed
qed

lemma upsert_facts_frame:
  "upsert_facts now s d = (r, s') \<Longrightarrow>
   dim_merchants s' = dim_merchants s \<and> stg_merchants s' = stg_merchants s"
  by (auto simp: upsert_facts_def Let_def split: option.splits if_splits)

lemma upsert_facts_again:
  assumes "upsert_facts now1 s0 d = (r, s1)"
  shows "upsert_facts now2 s1 d = (r, s1)"
proof (cases "those (map stage_daily (drows d))")
  case None
  with assms show ?thesis
    by (auto simp: upsert_facts_def Let_def)
next
  case (Some staged)
  show ?thesis
  proof (cases "distinct (map fst staged)")
    case False
    with Some assms show ?thesis
      by (auto simp: upsert_facts_def Let_def)
  next
    case True
    note dist = this
    show ?thesis
    proof (cases "list_all (\<lambda>(k, v). fact_daily_merchant_metrics s0 k \<noteq> None
                                    \<or> dim_merchants s0 (snd k) \<noteq> None) staged")
      case False
      with Some dist assms show ?thesis
        by (auto simp: upsert_facts_def Let_def)
    next
      case True
      have "list_all (\<lambda>(k, v). merge_rows now1 staged (fact_daily_merchant_metrics s0) k \<noteq> None
                                \<or> dim_merchants s0 (snd k) \<noteq> None) staged"
        unfolding list_all_iff
      proof (intro ballI)
        fix p assume "p \<in> set staged"
        then have "fst p \<in> fst ` set staged" by simp
        from merge_rows_defined [OF this]
        show "case p of (k, v) \<Rightarrow>
            merge_rows now1 staged (fact_daily_merchant_metrics s0) k \<noteq> None
            \<or> dim_merchants s0 (snd k) \<noteq> None"
          by (cases p) simp
      qed
      with True Some dist assms show ?thesis
        by (auto simp: upsert_facts_def Let_def merge_rows_twice)
    qed
  qed
qed

lemma main_again:
  "main tn td now2 m t (snd (main tn td now1 m t s)) = main tn td now1 m t s"
proof (cases "validate_and_clean tn td m t")
  case (Inl e)
  then show ?thesis by (simp add: main_def)
next
  case (Inr out)
  note v = this
  show ?thesis
  proof (cases "transform_daily_metrics (clean_txns out)")
    case (Inl e)
    with v show ?thesis by (simp add: main_def)
  next
    case (Inr daily)
    note d = this
    obtain r1 s1 where l1: "load_merchants now1 s (merchants_after out) = (r1, s1)"
      by (cases "load_merchants now1 s (merchants_after out)")
    show ?thesis
    proof (cases r1)
      case (Inl e)
      from load_merchants_again [OF l1, of s1 now2]
      have "load_merchants now2 s1 (merchants_after out) = (r1, s1)" by simp
      with v d l1 Inl show ?thesis by (simp add: main_def)
    next
      case (Inr n)
      obtain r2 s2 where u1: "upsert_facts now1 s1 daily = (r2, s2)"
        by (cases "upsert_facts now1 s1 daily")
      from upsert_facts_frame [OF u1] load_merchants_again [OF l1, of s2 now2]
      have l2: "load_merchants now2 s2 (merchants_after out) = (r1, s2)" by simp
      have u2: "upsert_facts now2 s2 daily = (r2, s2)"
        by (rule upsert_facts_again [OF u1])
      from v d l1 Inr u1 l2 u2 show ?thesis
        by (cases r2) (simp_all add: main_def)
    qed
  qed
qed

lemma last_dropWhile_eq: "dropWhile P xs \<noteq> [] \<Longrightarrow> last (dropWhile P xs) = last xs"
  by (induction xs) (auto split: if_splits)

lemma str_strip_ends:
  "str_strip s = [] \<or> (\<not> is_space (hd (str_strip s)) \<and> \<not> is_space (last (str_strip s)))"
proof (cases "str_strip s = []")
  case True
  then show ?thesis by simp
next
  case False
  let ?u = "dropWhile is_space s"
  let ?w = "dropWhile is_space (rev ?u)"
  from False have w: "?w \<noteq> []" by (simp add: str_strip_def)
  have u: "?u \<noteq> []"
  proof
    assume e: "?u = []"
    have "?w = []" unfolding e by simp
    with w show False by blast
  qed
  have "last (str_strip s) = hd ?w" using w by (simp add: str_strip_def last_rev)
  moreover have "\<not> is_space (hd ?w)" using w by (rule hd_dropWhile)
  moreover have "hd (str_strip s) = last ?w" using w by (simp add: str_strip_def hd_rev)
  moreover have "last ?w = last (rev ?u)" using w by (rule last_dropWhile_eq)
  moreover have "last (rev ?u) = hd ?u" using u by (simp add: last_rev)
  moreover have "\<not> is_space (hd ?u)" using u by (rule hd_dropWhile)
  ultimately show ?thesis by simp
qed

lemma str_strip_fixed:
  "v = [] \<or> (\<not> is_space (hd v) \<and> \<not> is_space (last v)) \<Longrightarrow> str_strip v = v"
proof (cases "v = []")
  case True
  then show ?thesis by (simp add: str_strip_def)
next
  case False
  assume "v = [] \<or> (\<not> is_space (hd v) \<and> \<not> is_space (last v))"
  with False have h: "\<not> is_space (hd v)" and l: "\<not> is_space (last v)" by simp_all
  have a: "dropWhile is_space v = v" using h by (simp add: dropWhile_eq_self_iff)
  have "hd (rev v) = last v" using False by (simp add: hd_rev)
  then have b: "dropWhile is_space (rev v) = rev v" using l by (simp add: dropWhile_eq_self_iff)
  show ?thesis by (simp add: str_strip_def a b)
qed

lemma trimmed_str_strip: "trimmed (str_strip s)"
  unfolding trimmed_def using str_strip_ends [of s] str_strip_fixed [of "str_strip s"] by blast

lemma those_Some_iff: "those xs = Some ys \<longleftrightarrow> xs = map Some ys"
proof (induction xs arbitrary: ys)
  case Nil
  show ?case by auto
next
  case (Cons x xs)
  show ?case
    by (cases x; cases ys) (auto simp: Cons.IH split: option.splits)
qed

lemma rows_merchants_to_load_stripped:
  "rows (merchants_to_load (stripped m)) =
     map (\<lambda>raw. map (\<lambda>c. if c \<in> set (map str_strip (columns m))
                          then Some (str_strip (astype_str (cell_at (map str_strip (columns m)) raw c)))
                          else None) merchant_load_columns)
       (rows m)"
proof -
  have "cell_at (map str_strip (columns m)) (strip_row (map str_strip (columns m)) raw) c =
      (if c \<in> set (map str_strip (columns m))
       then Some (str_strip (astype_str (cell_at (map str_strip (columns m)) raw c))) else None)"
    for raw c
    using cell_at_strip_row [of c "map str_strip (columns m)" raw]
      cell_at_absent [of c "map str_strip (columns m)" raw] by simp
  then show ?thesis
    by (simp add: merchants_to_load_def stripped_def comp_def)
qed

lemma load_merchants_Inr:
  assumes "load_merchants now s m = (Inr n, s')"
  shows "n = int (length (rows m))
    \<and> (\<exists>staged. map stage_merchant (rows (merchants_to_load m)) = map Some staged
          \<and> distinct (map fst staged)
          \<and> dim_merchants s' = merge_rows now staged (dim_merchants s))"
  using assms
  by (auto simp: load_merchants_def Let_def those_Some_iff merchants_to_load_def
      split: option.splits if_splits)

lemma merge_rows_staged:
  "distinct (map fst src) \<Longrightarrow> (k, v) \<in> set src \<Longrightarrow> \<exists>ts. merge_rows now src tgt k = Some (v, ts)"
  by (simp add: merge_rows_def)

lemma main_InrD:
  assumes v: "validate_and_clean tn td m t = Inr out"
    and r: "main tn td now m t s = (Inr st, s')"
  shows "\<exists>n s1. load_merchants now s (merchants_after out) = (Inr n, s1)
      \<and> merchants_loaded st = n \<and> dim_merchants s' = dim_merchants s1"
proof -
  from drows_clean [OF v] obtain daily where d: "transform_daily_metrics (clean_txns out) = Inr daily"
    by blast
  obtain r1 s1 where l: "load_merchants now s (merchants_after out) = (r1, s1)"
    by (cases "load_merchants now s (merchants_after out)")
  obtain r2 s2 where u: "upsert_facts now s1 daily = (r2, s2)"
    by (cases "upsert_facts now s1 daily")
  from r v d l u obtain n k where "r1 = Inr n" "r2 = Inr k" "s' = s2"
    "st = (stats out)\<lparr>merchants_loaded := n, daily_rows := int (length (drows daily)),
            fact_rows_upserted := k\<rparr>"
    by (cases r1; cases r2) (auto simp: main_def)
  with l upsert_facts_frame [OF u] show ?thesis by simp
qed

section \<open>The claims\<close>





text \<open>
  Claim C3. \<open>drop_duplicates\<close> keeps the row at position \<open>i\<close> exactly when its identifier
  does not occur at an earlier position, and keeps the kept rows in input order; so each
  identifier of the input occurs once in the result, at its first row. In particular a
  row whose (stripped) transaction identifier occurred in an earlier row has no effect on
  the daily metrics, whatever its amount: the run computes the same frame with and
  without it.
\<close>

theorem drop_duplicates_keeps_first_occurrence:
  "rows (drop_duplicates t c) =
     map (nth (rows t))
       (filter (\<lambda>i. column t c ! i \<notin> set (take i (column t c))) [0..<length (rows t)])
   \<and> distinct (column (drop_duplicates t c) c)
   \<and> set (column (drop_duplicates t c) c) = set (column t c)
   \<and> (stripped_id txns r2 \<in> stripped_id txns ` set before \<longrightarrow>
        daily_of to_numeric to_datetime merchants (txns\<lparr>rows := before @ r2 # after\<rparr>) =
        daily_of to_numeric to_datetime merchants (txns\<lparr>rows := before @ after\<rparr>))"
  using rows_drop_duplicates_index [of t c] column_drop_duplicates [of t c]
    daily_of_later_duplicate [of txns r2 before to_numeric to_datetime merchants after]
  by blast

theorem drop_duplicates_keeps_first_occurrence_witness:
  "stripped_id sample_txns (rows sample_txns ! 2) \<in> stripped_id sample_txns ` set (take 2 (rows sample_txns))
   \<and> daily_of plain_to_numeric plain_to_datetime sample_merchants
        (sample_txns\<lparr>rows := take 2 (rows sample_txns) @ (rows sample_txns ! 2) # drop 3 (rows sample_txns)\<rparr>) =
      daily_of plain_to_numeric plain_to_datetime sample_merchants
        (sample_txns\<lparr>rows := take 2 (rows sample_txns) @ drop 3 (rows sample_txns)\<rparr>)"
proof -
  have h: "stripped_id sample_txns (rows sample_txns ! 2)
      \<in> stripped_id sample_txns ` set (take 2 (rows sample_txns))"
    by code_simp
  from h drop_duplicates_keeps_first_occurrence
    [of sample_txns "''transaction_id''" sample_txns "rows sample_txns ! 2" "take 2 (rows sample_txns)"
       plain_to_numeric plain_to_datetime sample_merchants "drop 3 (rows sample_txns)"]
  show ?thesis by blast
qed

text \<open>
  Claim C4. In the cleaned table that \<open>validate_and_clean\<close> returns, the status of every
  row is APPROVED or DECLINED, and in every row that \<open>transform_daily_metrics\<close> emits for it
  approved_txn_count + declined_txn_count = txn_count.
\<close>

theorem approved_plus_declined_is_txn_count:
  assumes "validate_and_clean to_numeric to_datetime merchants txns = Inr out"
  shows "(\<forall>r\<in>set (trows (clean_txns out)).
            cell_at (tcolumns (clean_txns out)) (cells r) ''status''
              \<in> {Some ''APPROVED'', Some ''DECLINED''})
    \<and> (\<exists>daily. transform_daily_metrics (clean_txns out) = Inr daily
          \<and> (\<forall>g\<in>set (drows daily).
                approved_txn_count g + declined_txn_count g = txn_count g))"
proof -
  let ?cols = "tcolumns (clean_txns out)" and ?rs = "trows (clean_txns out)"
  note c = validate_and_clean_clean_rows [OF assms]
  have st: "\<forall>r\<in>set ?rs. valid_status ?cols r" using c(4) by (simp add: clean_row_def)
  have "approved_txn_count g + declined_txn_count g = txn_count g"
    if "g \<in> set (map (agg_group ?cols ?rs) (group_keys ?cols ?rs))" for g
  proof -
    from that obtain k where k: "k \<in> set (group_keys ?cols ?rs)" and g: "g = agg_group ?cols ?rs k"
      by auto
    have "\<forall>r\<in>set (group_rows ?cols ?rs k). valid_status ?cols r"
      using st by (simp add: group_rows_def)
    from approved_declined_partition [OF this] show ?thesis
      by (simp add: g agg_group_clean [OF c(4) k])
  qed
  with drows_clean [OF assms] st show ?thesis
    by (simp add: valid_status_def)
qed

theorem approved_plus_declined_is_txn_count_witness:
  "validate_and_clean plain_to_numeric plain_to_datetime sample_merchants sample_txns = Inr sample_out
   \<and> (\<exists>daily. transform_daily_metrics (clean_txns sample_out) = Inr daily
        \<and> (\<forall>g\<in>set (drows daily).
              approved_txn_count g + declined_txn_count g = txn_count g))"
  using approved_plus_declined_is_txn_count [OF sample_validate] sample_validate by blast

text \<open>
  Claim C5. In every row that \<open>transform_daily_metrics\<close> emits for the cleaned table that
  \<open>validate_and_clean\<close> returns, txn_count is positive, so both quotients are numbers
  (neither NaN nor infinite), and approval_rate lies between 0 and 1 inclusive.
\<close>

theorem txn_count_positive_rate_in_unit_interval:
  assumes "validate_and_clean to_numeric to_datetime merchants txns = Inr out"
  shows "\<exists>daily. transform_daily_metrics (clean_txns out) = Inr daily
    \<and> (\<forall>g\<in>set (drows daily).
          0 < txn_count g
        \<and> (\<exists>q. approval_rate g = Some q \<and> 0 \<le> q \<and> q \<le> 1)
        \<and> (\<exists>a. avg_ticket g = Some a))"
proof -
  let ?cols = "tcolumns (clean_txns out)" and ?rs = "trows (clean_txns out)"
  note c = validate_and_clean_clean_rows [OF assms]
  have "0 < txn_count g \<and> (\<exists>q. approval_rate g = Some q \<and> 0 \<le> q \<and> q \<le> 1)
        \<and> (\<exists>a. avg_ticket g = Some a)"
    if "g \<in> set (map (agg_group ?cols ?rs) (group_keys ?cols ?rs))" for g
  proof -
    from that obtain k where k: "k \<in> set (group_keys ?cols ?rs)" and g: "g = agg_group ?cols ?rs k"
      by auto
    let ?n = "length (group_rows ?cols ?rs k)"
    let ?a = "length (filter (approved ?cols) (group_rows ?cols ?rs k))"
    have n: "0 < ?n" using group_rows_nonempty [OF k] by simp
    have an: "?a \<le> ?n" by (rule length_filter_le)
    have lo: "(0::rat) \<le> of_int (int ?a) / of_int (int ?n)" by simp
    have hi: "of_int (int ?a) / of_int (int ?n) \<le> (1::rat)" using n an by (simp add: divide_le_eq)
    from np_round_unit [OF lo hi, of 4] n show ?thesis
      by (simp add: g agg_group_clean [OF c(4) k])
  qed
  with drows_clean [OF assms] show ?thesis by simp
qed

theorem txn_count_positive_rate_in_unit_interval_witness:
  "validate_and_clean plain_to_numeric plain_to_datetime sample_merchants sample_txns = Inr sample_out
   \<and> (\<exists>daily. transform_daily_metrics (clean_txns sample_out) = Inr daily
        \<and> (\<forall>g\<in>set (drows daily).
              0 < txn_count g \<and> (\<exists>q. approval_rate g = Some q \<and> 0 \<le> q \<and> q \<le> 1)))"
  using txn_count_positive_rate_in_unit_interval [OF sample_validate] sample_validate by blast

text \<open>
  Claim C6. When, after the labels are stripped, the merchant file lacks one of
  merchant_id, merchant_name, or the transaction file lacks one of transaction_id,
  merchant_id, txn_ts_utc, amount, status, \<open>validate_and_clean\<close> raises the \<open>ValueError\<close>
  whose message names the file and the non-empty set of its missing columns (the merchant
  file's when both files lack columns). The exception is the same whatever the rows of
  the two files and whatever the parsers do, so no row is looked at before it; and
  \<open>main\<close> ends with it and leaves the sink as it was: nothing is staged or loaded.
\<close>

theorem missing_column_raises_before_rows:
  assumes "\<not> required_merch_cols \<subseteq> set (map str_strip (columns merchants))
         \<or> \<not> required_txn_cols \<subseteq> set (map str_strip (columns txns))"
  shows "\<exists>fname missing.
        validate_and_clean to_numeric to_datetime merchants txns = Inl (ValueError fname missing)
      \<and> missing \<noteq> {}
      \<and> (fname = ''merchants.csv''
            \<and> missing = required_merch_cols - set (map str_strip (columns merchants))
          \<or> fname = ''transactions.csv''
            \<and> missing = required_txn_cols - set (map str_strip (columns txns)))
      \<and> (\<forall>tn td mrows trows.
            validate_and_clean tn td (merchants\<lparr>rows := mrows\<rparr>) (txns\<lparr>rows := trows\<rparr>)
              = Inl (ValueError fname missing))
      \<and> main to_numeric to_datetime now merchants txns engine
          = (Inl (ValueError fname missing), engine)"
proof -
  from validate_and_clean_missing [OF assms] obtain fname missing where
    a: "\<forall>tn td mrows trows.
          validate_and_clean tn td (merchants\<lparr>rows := mrows\<rparr>) (txns\<lparr>rows := trows\<rparr>)
            = Inl (ValueError fname missing)"
    and b: "missing \<noteq> {}"
    and c: "fname = ''merchants.csv''
            \<and> missing = required_merch_cols - set (map str_strip (columns merchants))
          \<or> fname = ''transactions.csv''
            \<and> missing = required_txn_cols - set (map str_strip (columns txns))"
    by blast
  from a have "validate_and_clean to_numeric to_datetime
       (merchants\<lparr>rows := rows merchants\<rparr>) (txns\<lparr>rows := rows txns\<rparr>)
       = Inl (ValueError fname missing)" by blast
  then have v: "validate_and_clean to_numeric to_datetime merchants txns
       = Inl (ValueError fname missing)"
    by (simp only: table_rows_same)
  then have "main to_numeric to_datetime now merchants txns engine
       = (Inl (ValueError fname missing), engine)"
    by (simp add: main_def)
  with a b c v show ?thesis by blast
qed

theorem missing_column_raises_before_rows_witness:
  "required_merch_cols \<subseteq> set (map str_strip (columns sample_merchants))
   \<and> \<not> required_txn_cols \<subseteq> set (map str_strip (columns no_status_txns))
   \<and> (\<exists>fname missing.
         main plain_to_numeric plain_to_datetime 0 sample_merchants no_status_txns empty_sink
           = (Inl (ValueError fname missing), empty_sink)
       \<and> fname = ''transactions.csv''
       \<and> missing = required_txn_cols - set (map str_strip (columns no_status_txns))
       \<and> missing \<noteq> {})"
proof -
  have m: "required_merch_cols \<subseteq> set (map str_strip (columns sample_merchants))"
    by code_simp
  have t: "\<not> required_txn_cols \<subseteq> set (map str_strip (columns no_status_txns))"
    by code_simp
  from t have h: "\<not> required_merch_cols \<subseteq> set (map str_strip (columns sample_merchants))
     \<or> \<not> required_txn_cols \<subseteq> set (map str_strip (columns no_status_txns))" ..
  from missing_column_raises_before_rows
    [OF h, of plain_to_numeric plain_to_datetime 0 empty_sink] m t
  show ?thesis by blast
qed

text \<open>
  Claim C7. Run \<open>main\<close> on two files and run it again on the same two files, starting from
  the sink the first run left, at any later reading of the database clock: the sink after
  the second run is the sink after the first run, and the second run ends as the first
  did (the same counters, or the same exception). Every staged key is matched by the
  second \<open>MERGE\<close>, which writes the values that are there and leaves the timestamps; no
  row is inserted.
\<close>

theorem second_run_leaves_sink_unchanged:
  "snd (main to_numeric to_datetime now2 merchants txns
          (snd (main to_numeric to_datetime now1 merchants txns engine)))
     = snd (main to_numeric to_datetime now1 merchants txns engine)
   \<and> fst (main to_numeric to_datetime now2 merchants txns
          (snd (main to_numeric to_datetime now1 merchants txns engine)))
     = fst (main to_numeric to_datetime now1 merchants txns engine)"
  by (simp add: main_again)

theorem second_run_leaves_sink_unchanged_witness:
  "snd (main plain_to_numeric plain_to_datetime 9 sample_merchants sample_txns
          (snd (main plain_to_numeric plain_to_datetime 5 sample_merchants sample_txns empty_sink)))
     = snd (main plain_to_numeric plain_to_datetime 5 sample_merchants sample_txns empty_sink)
   \<and> dim_merchants
         (snd (main plain_to_numeric plain_to_datetime 5 sample_merchants sample_txns empty_sink))
         ''m1''
       = Some (\<lparr>merchant_name = ''Sunrise Coffee'', category = None, city = Some ''Irvine'',
                 state = None\<rparr>, 5)
   \<and> dim_merchants empty_sink ''m1'' = None"
proof -
  have a: "dim_merchants
         (snd (main plain_to_numeric plain_to_datetime 5 sample_merchants sample_txns empty_sink))
         ''m1''
       = Some (\<lparr>merchant_name = ''Sunrise Coffee'', category = None, city = Some ''Irvine'',
                 state = None\<rparr>, 5)"
    by code_simp
  have b: "dim_merchants empty_sink ''m1'' = None" by code_simp
  from second_run_leaves_sink_unchanged
    [of plain_to_numeric plain_to_datetime 9 sample_merchants sample_txns 5 empty_sink] a b
  show ?thesis by blast
qed

text \<open>
  Claim C8. With the merchant file of the one merchant \<open>m1\<close> (of any name) and the two
  transactions \<open>(t1, m1, 2026-01-01T10:00:00Z, 10.00, APPROVED)\<close> and
  \<open>(t2, m1, 2026-01-01T11:00:00Z, 20.00, DECLINED)\<close>, and with parsers that read the two
  amounts as 10 and 20 and the two timestamps as those instants of 1 January 2026,
  \<open>validate_and_clean\<close> followed by \<open>transform_daily_metrics\<close> gives the single row
  metric_date = 2026-01-01, merchant_id = m1, txn_count = 2, approved_txn_count = 1,
  declined_txn_count = 1, gross_amount = 30, approved_amount = 10, approval_rate = 0.5,
  avg_ticket = 15.
\<close>

theorem end_to_end_scenario:
  assumes "to_numeric [Some ''10.00'', Some ''20.00''] = [Some 10, Some 20]"
    and "to_datetime [Some ''2026-01-01T10:00:00Z'', Some ''2026-01-01T11:00:00Z'']
        = [Some (utc_instant 2026 1 1 10 0 0), Some (utc_instant 2026 1 1 11 0 0)]"
  shows "\<exists>out. validate_and_clean to_numeric to_datetime (scenario_merchants name) scenario_txns
              = Inr out
      \<and> transform_daily_metrics (clean_txns out) =
          Inr \<lparr>dcolumns = daily_columns,
               drows = [\<lparr>metric_date = days_from_civil 2026 1 1, merchant_id = ''m1'',
                         txn_count = 2, approved_txn_count = 1, declined_txn_count = 1,
                         gross_amount = 30, approved_amount = 10,
                         approval_rate = Some (1 / 2), avg_ticket = Some 15\<rparr>]\<rparr>"
  using scenario_validates [of to_numeric to_datetime name]
    scenario_clean_txns [of to_numeric to_datetime name, OF assms] scenario_transform
  by simp

theorem end_to_end_scenario_witness:
  "plain_to_numeric [Some ''10.00'', Some ''20.00''] = [Some 10, Some 20]
   \<and> plain_to_datetime [Some ''2026-01-01T10:00:00Z'', Some ''2026-01-01T11:00:00Z'']
        = [Some (utc_instant 2026 1 1 10 0 0), Some (utc_instant 2026 1 1 11 0 0)]
   \<and> (\<exists>out. validate_and_clean plain_to_numeric plain_to_datetime
               (scenario_merchants (Some ''Sunrise Coffee'')) scenario_txns = Inr out
      \<and> transform_daily_metrics (clean_txns out) =
          Inr \<lparr>dcolumns = daily_columns,
               drows = [\<lparr>metric_date = days_from_civil 2026 1 1, merchant_id = ''m1'',
                         txn_count = 2, approved_txn_count = 1, declined_txn_count = 1,
                         gross_amount = 30, approved_amount = 10,
                         approval_rate = Some (1 / 2), avg_ticket = Some 15\<rparr>]\<rparr>)"
proof -
  have h1: "plain_to_numeric [Some ''10.00'', Some ''20.00''] = [Some 10, Some 20]"
    by code_simp
  have h2: "plain_to_datetime [Some ''2026-01-01T10:00:00Z'', Some ''2026-01-01T11:00:00Z'']
        = [Some (utc_instant 2026 1 1 10 0 0), Some (utc_instant 2026 1 1 11 0 0)]"
    by code_simp
  from end_to_end_scenario
    [of plain_to_numeric plain_to_datetime "Some ''Sunrise Coffee''", OF h1 h2] h1 h2
  show ?thesis by blast
qed

text \<open>
  Claim C9. When \<open>validate_and_clean\<close> returns, the merchant frame its caller passed in
  holds, under stripped labels, the stripped text of every cell (\<open>nan\<close> for an empty
  one). \<open>main\<close> hands that frame to \<open>load_merchants\<close>: in each row presented for upsert a
  field is NULL (the file has no such column) or a text with no whitespace at either
  end, and after a run that ends normally every presented row is in \<open>dim_merchants\<close>
  under its identifier, with those fields, and merchants_loaded is the row count of the
  file.
\<close>

theorem loader_receives_trimmed_merchants:
  assumes "validate_and_clean to_numeric to_datetime merchants txns = Inr out"
  shows "merchants_after out = stripped merchants
    \<and> rows (merchants_to_load (merchants_after out)) =
        map (\<lambda>raw. map (\<lambda>c. if c \<in> set (map str_strip (columns merchants))
                             then Some (str_strip (astype_str
                                    (cell_at (map str_strip (columns merchants)) raw c)))
                             else None) merchant_load_columns)
          (rows merchants)
    \<and> (\<forall>r\<in>set (rows (merchants_to_load (merchants_after out))).
          \<forall>c\<in>set r. c = None \<or> (\<exists>v. c = Some v \<and> trimmed v))
    \<and> (\<forall>st s'. main to_numeric to_datetime now merchants txns engine = (Inr st, s') \<longrightarrow>
          merchants_loaded st = int (length (rows merchants))
          \<and> (\<forall>r\<in>set (rows (merchants_to_load (merchants_after out))).
                \<exists>i a ts. stage_merchant r = Some (i, a) \<and> dim_merchants s' i = Some (a, ts)))"
proof -
  note d = validate_and_clean_InrD [OF assms]
  have a: "merchants_after out = stripped merchants"
    by (simp add: d(5) vc_success_def Let_def)
  note b = rows_merchants_to_load_stripped [of merchants]
  have c: "\<forall>r\<in>set (rows (merchants_to_load (stripped merchants))).
          \<forall>c\<in>set r. c = None \<or> (\<exists>v. c = Some v \<and> trimmed v)"
    unfolding b by (auto simp: trimmed_str_strip)
  have e: "merchants_loaded st = int (length (rows merchants))
          \<and> (\<forall>r\<in>set (rows (merchants_to_load (stripped merchants))).
                \<exists>i a ts. stage_merchant r = Some (i, a) \<and> dim_merchants s' i = Some (a, ts))"
    if run: "main to_numeric to_datetime now merchants txns engine = (Inr st, s')" for st s'
  proof -
    from main_InrD [OF assms run] obtain n s1 where
      l: "load_merchants now engine (stripped merchants) = (Inr n, s1)"
      and n: "merchants_loaded st = n" and dm: "dim_merchants s' = dim_merchants s1"
      by (auto simp: a)
    from load_merchants_Inr [OF l] obtain staged where
      len: "n = int (length (rows (stripped merchants)))"
      and st: "map stage_merchant (rows (merchants_to_load (stripped merchants))) = map Some staged"
      and di: "distinct (map fst staged)"
      and mr: "dim_merchants s1 = merge_rows now staged (dim_merchants engine)"
      by blast
    have "\<exists>i a ts. stage_merchant r = Some (i, a) \<and> dim_merchants s' i = Some (a, ts)"
      if "r \<in> set (rows (merchants_to_load (stripped merchants)))" for r
    proof -
      from that have "stage_merchant r \<in> set (map Some staged)"
        unfolding st [symmetric] by simp
      then obtain i a where sr: "stage_merchant r = Some (i, a)" and mem: "(i, a) \<in> set staged"
        by auto
      from merge_rows_staged [OF di mem] sr show ?thesis
        by (auto simp: dm mr)
    qed
    with n len show ?thesis by (simp add: stripped_def)
  qed
  from a b c e show ?thesis by (simp only: a) blast
qed

theorem loader_receives_trimmed_merchants_witness:
  "validate_and_clean plain_to_numeric plain_to_datetime sample_merchants sample_txns = Inr sample_out
   \<and> rows (merchants_to_load sample_merchants)
       = [[Some '' m1 '', None, None, Some ''Irvine '', None],
          [Some ''m2'', None, None, Some ''Tustin'', None]]
   \<and> rows (merchants_to_load (merchants_after sample_out))
       = [[Some ''m1'', Some ''Sunrise Coffee'', None, Some ''Irvine'', None],
          [Some ''m2'', Some ''nan'', None, Some ''Tustin'', None]]
   \<and> fst (main plain_to_numeric plain_to_datetime 5 sample_merchants sample_txns empty_sink)
       = Inr \<lparr>txns_total = 8, txns_after_dedupe = 7, txns_valid = 3, txns_rejected = 4,
              merchants_loaded = 2, daily_rows = 2, fact_rows_upserted = 2\<rparr>
   \<and> list_all (\<lambda>r. list_all (\<lambda>c. c = None \<or> (\<exists>v. c = Some v \<and> trimmed v)) r
                  \<and> (\<exists>i a ts. stage_merchant r = Some (i, a)
                       \<and> dim_merchants (snd (main plain_to_numeric plain_to_datetime 5
                            sample_merchants sample_txns empty_sink)) i = Some (a, ts)))
       (rows (merchants_to_load (merchants_after sample_out)))"
proof -
  let ?run = "main plain_to_numeric plain_to_datetime 5 sample_merchants sample_txns empty_sink"
  have raw: "rows (merchants_to_load sample_merchants)
       = [[Some '' m1 '', None, None, Some ''Irvine '', None],
          [Some ''m2'', None, None, Some ''Tustin'', None]]"
    by code_simp
  have ld: "rows (merchants_to_load (merchants_after sample_out))
       = [[Some ''m1'', Some ''Sunrise Coffee'', None, Some ''Irvine'', None],
          [Some ''m2'', Some ''nan'', None, Some ''Tustin'', None]]"
    by code_simp
  have st: "fst ?run
       = Inr \<lparr>txns_total = 8, txns_after_dedupe = 7, txns_valid = 3, txns_rejected = 4,
              merchants_loaded = 2, daily_rows = 2, fact_rows_upserted = 2\<rparr>"
    by code_simp
  then have run: "?run
       = (Inr \<lparr>txns_total = 8, txns_after_dedupe = 7, txns_valid = 3, txns_rejected = 4,
              merchants_loaded = 2, daily_rows = 2, fact_rows_upserted = 2\<rparr>, snd ?run)"
    by (simp add: prod_eq_iff)
  from loader_receives_trimmed_merchants [OF sample_validate, of 5 empty_sink] run
  have "list_all (\<lambda>r. list_all (\<lambda>c. c = None \<or> (\<exists>v. c = Some v \<and> trimmed v)) r
                  \<and> (\<exists>i a ts. stage_merchant r = Some (i, a)
                       \<and> dim_merchants (snd ?run) i = Some (a, ts)))
       (rows (merchants_to_load (merchants_after sample_out)))"
    unfolding list_all_iff by blast
  with sample_validate raw ld st show ?thesis by blast
qed

text \<open>
  Claim C10, as amended. When both files have their required columns and no two labels
  of a file are equal after stripping, and the transaction file has no rows,
  \<open>validate_and_clean\<close> returns an empty cleaned table with the four transaction counters
  at 0, and \<open>transform_daily_metrics\<close> returns a frame with no rows for it.
\<close>

theorem no_rows_in_no_rows_out:
  assumes "required_merch_cols \<subseteq> set (map str_strip (columns merchants))"
    and "required_txn_cols \<subseteq> set (map str_strip (columns txns))"
    and "distinct (map str_strip (columns merchants))"
    and "distinct (map str_strip (columns txns))"
    and "rows txns = []"
  shows "\<exists>out. validate_and_clean to_numeric to_datetime merchants txns = Inr out
      \<and> trows (clean_txns out) = []
      \<and> txns_total (stats out) = 0 \<and> txns_after_dedupe (stats out) = 0
      \<and> txns_valid (stats out) = 0 \<and> txns_rejected (stats out) = 0
      \<and> (\<exists>daily. transform_daily_metrics (clean_txns out) = Inr daily \<and> drows daily = [])"
proof -
  let ?out = "vc_success to_numeric to_datetime merchants txns"
  have v: "validate_and_clean to_numeric to_datetime merchants txns = Inr ?out"
    using assms(1-4) by (simp add: validate_and_clean_unfold)
  note e = vc_success_no_rows [OF assms(5), of to_numeric to_datetime merchants]
  have "transform_daily_metrics (clean_txns ?out) =
      Inr \<lparr>dcolumns = daily_columns, drows = []\<rparr>"
    unfolding drows_clean [OF v] by (simp add: e(1) group_keys_def)
  with v e show ?thesis by (simp add: RunStats0_def)
qed

theorem no_rows_in_no_rows_out_witness:
  "required_merch_cols \<subseteq> set (map str_strip (columns sample_merchants))
   \<and> required_txn_cols \<subseteq> set (map str_strip (columns headers_only_txns))
   \<and> distinct (map str_strip (columns sample_merchants))
   \<and> distinct (map str_strip (columns headers_only_txns))
   \<and> rows headers_only_txns = []
   \<and> (\<exists>out. validate_and_clean plain_to_numeric plain_to_datetime sample_merchants headers_only_txns
               = Inr out
         \<and> trows (clean_txns out) = [] \<and> txns_rejected (stats out) = 0
         \<and> (\<exists>daily. transform_daily_metrics (clean_txns out) = Inr daily \<and> drows daily = []))"
proof -
  have h1: "required_merch_cols \<subseteq> set (map str_strip (columns sample_merchants))"
    and h2: "required_txn_cols \<subseteq> set (map str_strip (columns headers_only_txns))"
    and h3: "distinct (map str_strip (columns sample_merchants))"
    and h4: "distinct (map str_strip (columns headers_only_txns))"
    and h5: "rows headers_only_txns = []"
    by code_simp+
  from no_rows_in_no_rows_out [OF h1 h2 h3 h4 h5, of plain_to_numeric plain_to_datetime]
    h1 h2 h3 h4 h5
  show ?thesis by blast
qed

text \<open>
  The claim as stated fails: a merchant file with the headers \<open>city\<close> and \<open> city\<close> has
  its required columns, and with a transaction file of no rows \<open>validate_and_clean\<close>
  raises \<open>AttributeError\<close> at line 84.
\<close>

theorem no_rows_duplicate_label_counterexample:
  "required_merch_cols \<subseteq> set (columns headers_only_merchants)
   \<and> required_txn_cols \<subseteq> set (columns headers_only_txns)
   \<and> rows headers_only_txns = []
   \<and> validate_and_clean plain_to_numeric plain_to_datetime headers_only_merchants headers_only_txns
       = Inl AttributeError"
  by code_simp

end
